theory Spec2Isabelle
  imports Main "HOL-Library.Word"
begin

unbundle bit_operations_syntax

section \<open>The Lantiq TAPI channel driver (chan\_lantiq.c)\<close>

text \<open>
  A shallow embedding of the per-port line state machine, the digit collector and the
  RTP packetizer of \<^verbatim>\<open>src/channels/chan_lantiq.c\<close>.

  Conventions of the embedding.
  \<^item> A \<^verbatim>\<open>struct lantiq_pvt *\<close> always points into the port table \<^verbatim>\<open>iflist\<close>, and
    \<^verbatim>\<open>lantiq_create_pvts\<close> sets \<^verbatim>\<open>iflist[i].port_id = i\<close> once and for all, so
    \<^verbatim>\<open>&iflist[pvt->port_id]\<close> is \<^verbatim>\<open>pvt\<close> itself. A handler of one port is therefore a
    function on that port's record; the two functions that index the table with a number
    parsed from a string take the table as a list.
  \<^item> Calls that leave the driver (ioctls, LED files, the scheduler, the call-control
    engine) are recorded, in program order, as a list of \<open>action\<close>s returned beside the
    new port record. Values that come back from such calls are fields of \<open>env\<close>.
  \<^item> On the driver's target \<^verbatim>\<open>int\<close> and \<^verbatim>\<open>long\<close> have 32 bits. A value of such a type is an
    integer; division is C's truncating division (\<open>c_div\<close>), and the sums, products and
    quotients of \<^verbatim>\<open>ast_lantiq_write\<close> are wrapped to 32 bits (\<open>int32\<close>), which is what the
    target does where C leaves signed overflow undefined. The unsigned 16-bit sequence
    number and the 32-bit RTP timestamp are machine words and wrap.
  \<^item> A read through a \<^verbatim>\<open>NULL\<close> pointer ends the process: it is the error \<open>Null_Pointer_Read\<close>.
\<close>

subsection \<open>C operators\<close>

text \<open>Integer division of C: the quotient is truncated towards zero.\<close>

definition c_div :: "int \<Rightarrow> int \<Rightarrow> int" where
  "c_div a b = sgn a * sgn b * (\<bar>a\<bar> div \<bar>b\<bar>)"

text \<open>
  The value of a 32-bit \<^verbatim>\<open>int\<close> expression whose mathematical value is \<open>x\<close>: two's
  complement wrap-around. \<open>in32 x\<close> says that \<open>x\<close> fits, so that nothing wraps.
\<close>

definition int32 :: "int \<Rightarrow> int" where
  "int32 x = (x + 2 ^ 31) mod 2 ^ 32 - 2 ^ 31"

definition in32 :: "int \<Rightarrow> bool" where
  "in32 x = (- (2 ^ 31) \<le> x \<and> x < 2 ^ 31)"

datatype fault = Null_Pointer_Read

text \<open>Logical negation \<^verbatim>\<open>!e\<close> and comparison \<^verbatim>\<open>a == b\<close> of C, both of type \<^verbatim>\<open>int\<close>.\<close>

definition c_not :: "int \<Rightarrow> int" where
  "c_not e = (if e = 0 then 1 else 0)"

definition c_eq :: "int \<Rightarrow> int \<Rightarrow> int" where
  "c_eq a b = (if a = b then 1 else 0)"

subsection \<open>Data model\<close>

text \<open>\<^verbatim>\<open>enum channel_state\<close>, with the integer value of each enumerator.\<close>

datatype channel_state = ONHOOK | OFFHOOK | DIALING | INCALL | CALL_ENDED | RINGING | UNKNOWN

fun enum_val :: "channel_state \<Rightarrow> int" where
  "enum_val ONHOOK = 0"
| "enum_val OFFHOOK = 1"
| "enum_val DIALING = 2"
| "enum_val INCALL = 3"
| "enum_val CALL_ENDED = 4"
| "enum_val RINGING = 5"
| "enum_val UNKNOWN = 6"

text \<open>
  The media formats of the engine (\<^verbatim>\<open>format_t\<close>). The header that numbers them is not
  part of the sources; the driver only compares a format with the named constants
  and with 0, so the formats are an enumeration: \<open>AST_FORMAT_NONE\<close> is the value 0 and
  \<open>AST_FORMAT_OTHER n\<close> is any value that is none of the constants the driver names.
\<close>

datatype format_t =
    AST_FORMAT_NONE
  | AST_FORMAT_G723_1
  | AST_FORMAT_G729A
  | AST_FORMAT_ULAW
  | AST_FORMAT_ALAW
  | AST_FORMAT_G726
  | AST_FORMAT_ILBC
  | AST_FORMAT_SLINEAR
  | AST_FORMAT_SLINEAR16
  | AST_FORMAT_G722
  | AST_FORMAT_SIREN7
  | AST_FORMAT_OTHER nat

text \<open>A \<^verbatim>\<open>struct ast_channel *\<close> is the identity of a call leg.\<close>

type_synonym chan = nat

text \<open>\<^verbatim>\<open>struct lantiq_pvt\<close>. The C field \<^verbatim>\<open>context\<close> is \<open>context_pvt\<close> here.\<close>

record lantiq_pvt =
  owner :: "chan option"
  port_id :: int
  channel_state :: channel_state
  context_pvt :: string
  dial_timer :: int
  dtmfbuf :: "char list"
  dtmfbuf_len :: int
  rtp_timestamp :: "32 word"
  ptime :: int
  rtp_payload :: "8 word"
  codec :: format_t
  rtp_seqno :: "16 word"
  call_setup_start :: "32 word"
  call_setup_delay :: "32 word"
  call_start :: "32 word"
  call_answer :: "32 word"
  jb_size :: "16 word"
  jb_underflow :: "32 word"
  jb_overflow :: "32 word"
  jb_delay :: "16 word"
  jb_invalid :: "16 word"

subsection \<open>Media bridge: the outbound packetizer\<close>

definition RTP_HEADER_LEN :: int where "RTP_HEADER_LEN = 12"
definition RTP_BUFFER_LEN :: int where "RTP_BUFFER_LEN = 512"

definition RTP_PCMU :: "8 word" where "RTP_PCMU = 0"
definition RTP_G723_63 :: "8 word" where "RTP_G723_63 = 4"
definition RTP_PCMA :: "8 word" where "RTP_PCMA = 8"
definition RTP_G722 :: "8 word" where "RTP_G722 = 9"
definition RTP_CN :: "8 word" where "RTP_CN = 13"
definition RTP_G729 :: "8 word" where "RTP_G729 = 18"
definition RTP_G7221 :: "8 word" where "RTP_G7221 = 100"
definition RTP_G726 :: "8 word" where "RTP_G726 = 101"
definition RTP_ILBC :: "8 word" where "RTP_ILBC = 102"
definition RTP_SLIN8 :: "8 word" where "RTP_SLIN8 = 103"
definition RTP_SLIN16 :: "8 word" where "RTP_SLIN16 = 104"
definition RTP_SIREN7 :: "8 word" where "RTP_SIREN7 = 105"
definition RTP_G723_53 :: "8 word" where "RTP_G723_53 = 106"

datatype frame_type = AST_FRAME_VOICE | AST_FRAME_DTMF | AST_FRAME_OTHER

text \<open>
  The fields of \<^verbatim>\<open>struct ast_frame\<close> the packetizer reads: \<open>len\<close> is the duration in
  milliseconds, \<open>datalen\<close> the number of payload bytes at \<^verbatim>\<open>data.ptr\<close>, \<open>samples\<close> the
  number of media samples. The payload bytes themselves are only copied, never
  inspected: a packet records which bytes of the frame it carries.
\<close>

record ast_frame =
  frametype :: frame_type
  subclass_codec :: format_t
  datalen :: int
  samples :: int
  len :: int

text \<open>
  \<^verbatim>\<open>length * frame->samples / frame->datalen\<close>, the samples of a chunk of \<open>length'\<close> bytes as
  \<^verbatim>\<open>ast_lantiq_write\<close> computes them in \<^verbatim>\<open>int\<close>.
\<close>

definition length_samples :: "ast_frame \<Rightarrow> int \<Rightarrow> int" where
  "length_samples f length' = int32 (c_div (int32 (length' * samples f)) (datalen f))"

text \<open>
  One pass of the loop body: the header written into \<^verbatim>\<open>buf\<close> (\<open>pkt_payload_type\<close> is the
  7-bit field), the frame bytes copied behind it (\<open>pkt_length\<close> bytes from offset
  \<open>pkt_offset\<close> of the frame) and the value \<^verbatim>\<open>write\<close> returned for it.
\<close>

record rtp_packet =
  pkt_payload_type :: "8 word"
  pkt_seqno :: "16 word"
  pkt_timestamp :: "32 word"
  pkt_offset :: int
  pkt_length :: int
  pkt_ret :: int

text \<open>
  How a call of \<^verbatim>\<open>ast_lantiq_write\<close> ends: it returns a value; or it divides by zero
  (undefined behaviour); or it is still inside the loop, waiting for the result of the
  next \<^verbatim>\<open>write\<close>, when the results supplied to the model are used up.
\<close>

datatype write_outcome = Returned int | Division_By_Zero | Awaiting_Write

text \<open>
  The \<^verbatim>\<open>while (head < tail)\<close> loop. \<open>head\<close> is the offset of the C pointer \<^verbatim>\<open>head\<close> from
  \<^verbatim>\<open>frame->data.ptr\<close>, so \<^verbatim>\<open>tail - head\<close> is \<open>datalen f - head\<close>. \<open>pt\<close> is the payload type
  in the header. The list holds the values returned by the successive calls of
  \<^verbatim>\<open>write\<close>; a short write is only logged, so it continues like a full one. A packet
  records the offset and the length that the pass hands to \<^verbatim>\<open>memcpy\<close> and \<^verbatim>\<open>write\<close>, as the
  loop computes them.
\<close>

fun write_loop ::
  "ast_frame \<Rightarrow> 8 word \<Rightarrow> lantiq_pvt \<Rightarrow> int \<Rightarrow> int \<Rightarrow> int \<Rightarrow> int list
     \<Rightarrow> write_outcome \<times> lantiq_pvt \<times> rtp_packet list" where
  "write_loop f pt pvt head length' samples' [] =
     (if head < datalen f then (Awaiting_Write, pvt, []) else (Returned 0, pvt, []))"
| "write_loop f pt pvt head length' samples' (ret # rets) =
     (if head < datalen f then
        (let seqno = rtp_seqno pvt;
             pvt1 = pvt\<lparr>rtp_seqno := rtp_seqno pvt + 1\<rparr>;
             timestamp = rtp_timestamp pvt1;
             short = (datalen f - head < RTP_BUFFER_LEN - RTP_HEADER_LEN);
             length2 = (if short then datalen f - head else length');
             samples2 = (if short then length_samples f length2 else samples');
             pkt = \<lparr>pkt_payload_type = pt, pkt_seqno = seqno, pkt_timestamp = timestamp,
                    pkt_offset = head, pkt_length = length2, pkt_ret = ret\<rparr>;
             head2 = head + length2;
             pvt2 = pvt1\<lparr>rtp_timestamp := rtp_timestamp pvt1 +
                      word_of_int (if pt = RTP_G722 then c_div samples2 2 else samples2)\<rparr>
         in if ret < 0 then (Returned (- 1), pvt2, [pkt])
            else (case write_loop f pt pvt2 head2 length2 samples2 rets of
                    (r, pvt3, pkts) \<Rightarrow> (r, pvt3, pkt # pkts)))
      else (Returned 0, pvt, []))"

text \<open>
  The locals \<^verbatim>\<open>subframes\<close> (number of subframes in the frame) and \<^verbatim>\<open>subframes_rtp\<close> (how
  many fit in one packet) of \<^verbatim>\<open>ast_lantiq_write\<close>, and the initial value of \<^verbatim>\<open>length\<close>.
\<close>

definition subframes :: "lantiq_pvt \<Rightarrow> ast_frame \<Rightarrow> int" where
  "subframes pvt f = int32 (c_div (int32 (ptime pvt + len f - 1)) (ptime pvt))"

definition subframes_rtp :: "lantiq_pvt \<Rightarrow> ast_frame \<Rightarrow> int" where
  "subframes_rtp pvt f =
     int32 (c_div (int32 ((RTP_BUFFER_LEN - RTP_HEADER_LEN) * subframes pvt f)) (datalen f))"

definition chunk_length :: "lantiq_pvt \<Rightarrow> ast_frame \<Rightarrow> int" where
  "chunk_length pvt f =
     int32 (c_div (int32 (subframes_rtp pvt f * datalen f)) (subframes pvt f))"

text \<open>
  \<^verbatim>\<open>ast_lantiq_write\<close>, for the port \<open>pvt\<close> the call leg belongs to
  (\<^verbatim>\<open>ast->tech_pvt\<close>). The result is the outcome, the port afterwards and the packets
  handed to \<^verbatim>\<open>write\<close>, in order. The header field \<^verbatim>\<open>payload_type\<close> has 7 bits.
\<close>

definition ast_lantiq_write ::
  "lantiq_pvt \<Rightarrow> ast_frame \<Rightarrow> int list \<Rightarrow> write_outcome \<times> lantiq_pvt \<times> rtp_packet list" where
  "ast_lantiq_write pvt f rets =
     (if frametype f \<noteq> AST_FRAME_VOICE then (Returned 0, pvt, [])
      else if subclass_codec f \<noteq> codec pvt then (Returned 0, pvt, [])
      else if datalen f = 0 then (Returned 0, pvt, [])
      else if ptime pvt = 0 then (Division_By_Zero, pvt, [])
      else if subframes pvt f = 0 then (Division_By_Zero, pvt, [])
      else
        (let length' = chunk_length pvt f;
             samples' = length_samples f length'
         in write_loop f (rtp_payload pvt AND 127) pvt 0 length' samples' rets))"

text \<open>
  The number of media samples carried by a packet, as the loop computes it for the chunk
  (\<^verbatim>\<open>length * frame->samples / frame->datalen\<close> in 32-bit \<^verbatim>\<open>int\<close>), and the amount the loop
  adds to the timestamp after the packet (\<^verbatim>\<open>samples / 2\<close> for payload type \<^verbatim>\<open>RTP_G722\<close>).
\<close>

definition chunk_samples :: "ast_frame \<Rightarrow> rtp_packet \<Rightarrow> int" where
  "chunk_samples f pkt = length_samples f (pkt_length pkt)"

definition timestamp_advance :: "ast_frame \<Rightarrow> rtp_packet \<Rightarrow> int" where
  "timestamp_advance f pkt =
     (if pkt_payload_type pkt = RTP_G722 then c_div (chunk_samples f pkt) 2
      else chunk_samples f pkt)"

text \<open>The parts of one pass of the loop body, named for the proofs.\<close>

definition step_length :: "ast_frame \<Rightarrow> int \<Rightarrow> int \<Rightarrow> int" where
  "step_length f head length' =
     (if datalen f - head < RTP_BUFFER_LEN - RTP_HEADER_LEN then datalen f - head else length')"

definition step_samples :: "ast_frame \<Rightarrow> int \<Rightarrow> int \<Rightarrow> int \<Rightarrow> int" where
  "step_samples f head length' samples' =
     (if datalen f - head < RTP_BUFFER_LEN - RTP_HEADER_LEN
      then length_samples f (step_length f head length') else samples')"

definition step_packet ::
  "ast_frame \<Rightarrow> 8 word \<Rightarrow> lantiq_pvt \<Rightarrow> int \<Rightarrow> int \<Rightarrow> int \<Rightarrow> rtp_packet" where
  "step_packet f pt pvt head length' ret =
     \<lparr>pkt_payload_type = pt, pkt_seqno = rtp_seqno pvt, pkt_timestamp = rtp_timestamp pvt,
      pkt_offset = head, pkt_length = step_length f head length', pkt_ret = ret\<rparr>"

definition step_pvt ::
  "ast_frame \<Rightarrow> 8 word \<Rightarrow> lantiq_pvt \<Rightarrow> int \<Rightarrow> int \<Rightarrow> int \<Rightarrow> lantiq_pvt" where
  "step_pvt f pt pvt head length' samples' =
     pvt\<lparr>rtp_seqno := rtp_seqno pvt + 1,
         rtp_timestamp := rtp_timestamp pvt +
           word_of_int (if pt = RTP_G722 then c_div (step_samples f head length' samples') 2
                        else step_samples f head length' samples')\<rparr>"

subsection \<open>Calls that leave the driver\<close>

datatype line_feed = IFX_TAPI_LINE_FEED_STANDBY | IFX_TAPI_LINE_FEED_ACTIVE

text \<open>\<^verbatim>\<open>chan->_state\<close> of a call leg, and the control frames the driver queues.\<close>

datatype ast_state =
  AST_STATE_DOWN | AST_STATE_RING | AST_STATE_RINGING | AST_STATE_UP | AST_STATE_BUSY

datatype ast_control = AST_CONTROL_RINGING | AST_CONTROL_ANSWER | AST_CONTROL_BUSY

definition TAPI_TONE_LOCALE_NONE :: int where "TAPI_TONE_LOCALE_NONE = 0"
definition TAPI_TONE_LOCALE_BUSY_CODE :: int where "TAPI_TONE_LOCALE_BUSY_CODE = 27"
definition TAPI_TONE_LOCALE_DIAL_CODE :: int where "TAPI_TONE_LOCALE_DIAL_CODE = 25"
definition LED_SLOW_BLINK :: int where "LED_SLOW_BLINK = 1000"
definition LED_FAST_BLINK :: int where "LED_FAST_BLINK = 100"

text \<open>
  One constructor per call. The first argument of an ioctl or LED action is the port
  number the call is made for; a call into the engine names the call leg.
\<close>

datatype action =
    led_blink int int
  | led_on int
  | led_off int
  | IFX_TAPI_RING_START int
  | IFX_TAPI_CID_TX_SEQ_START int string string
  | IFX_TAPI_RING_STOP int
  | IFX_TAPI_TONE_LOCAL_PLAY int int
  | IFX_TAPI_LINE_FEED_SET int line_feed
  | IFX_TAPI_ENC_STOP int
  | IFX_TAPI_DEC_STOP int
  | IFX_TAPI_ENC_CFG_SET int
  | IFX_TAPI_ENC_START int
  | IFX_TAPI_DEC_START int
  | IFX_TAPI_JB_STATISTICS_GET int
  | ast_channel_alloc ast_state "string option" "string option" int
  | ast_setstate chan ast_state
  | ast_queue_control chan ast_control
  | ast_queue_hangup chan
  | ast_queue_frame_dtmf chan char
  | ast_hangup chan
  | ast_pbx_start chan
  | ast_sched_thread_del int
  | ast_sched_thread_add int
  | AST_SCHED_REPLACE int int

text \<open>\<^verbatim>\<open>IFX_TAPI_JB_STATISTICS_t\<close>: the fields the driver copies.\<close>

record jb_statistics =
  nBufSize :: "32 word"
  nIsUnderflow :: "32 word"
  nDsOverflow :: "32 word"
  nInvalid :: "32 word"
  nPODelay :: "32 word"

text \<open>
  What the outside answers during one entry into the driver: the dialplan
  (\<^verbatim>\<open>ast_exists_extension\<close> for a context and an extension), the call leg
  \<^verbatim>\<open>ast_channel_alloc\<close> returns (\<open>None\<close> is \<^verbatim>\<open>NULL\<close>), the result of \<^verbatim>\<open>ast_pbx_start\<close>, the
  clocks read by \<^verbatim>\<open>now()\<close> and \<^verbatim>\<open>epoch()\<close>, the timer id the scheduler hands out, the
  jitter-buffer statistics (\<open>None\<close> when the ioctl fails), the results of the line-feed
  and codec ioctls (non-zero is failure) and \<^verbatim>\<open>pvt->owner->_state\<close>.
\<close>

record env =
  exists_extension :: "string \<Rightarrow> string \<Rightarrow> bool"
  channel_alloc :: "chan option"
  pbx_start :: int
  now_ms :: "32 word"
  epoch_s :: "32 word"
  sched_add :: int
  jb_stats_get :: "jb_statistics option"
  line_feed_set :: int
  enc_stop :: int
  dec_stop :: int
  owner_state :: ast_state

text \<open>\<^verbatim>\<open>struct lantiq_ctx dev_ctx\<close>: the fields the modelled functions read.\<close>

record lantiq_ctx =
  channels :: int
  interdigit_timeout :: int

text \<open>
  A port as \<^verbatim>\<open>lantiq_create_pvts\<close> leaves it: zeroed memory, \<^verbatim>\<open>lantiq_init_pvt\<close>, then the
  port number and (without per-channel contexts) the context \<^verbatim>\<open>default\<close>.
\<close>

definition lantiq_init_pvt :: "int \<Rightarrow> lantiq_pvt" where
  "lantiq_init_pvt AST_MAX_EXTENSION =
     \<lparr>owner = None, port_id = - 1, channel_state = UNKNOWN, context_pvt = [], dial_timer = 0,
      dtmfbuf = replicate (nat AST_MAX_EXTENSION) (CHR 0x00), dtmfbuf_len = 0,
      rtp_timestamp = 0, ptime = 0, rtp_payload = 0, codec = AST_FORMAT_NONE, rtp_seqno = 0,
      call_setup_start = 0, call_setup_delay = 0, call_start = 0, call_answer = 0,
      jb_size = 0, jb_underflow = 0, jb_overflow = 0, jb_delay = 0, jb_invalid = 0\<rparr>"

definition lantiq_create_pvt :: "int \<Rightarrow> int \<Rightarrow> lantiq_pvt" where
  "lantiq_create_pvt AST_MAX_EXTENSION i =
     (lantiq_init_pvt AST_MAX_EXTENSION)\<lparr>port_id := i, context_pvt := ''default''\<rparr>"

subsection \<open>Hardware helpers\<close>

text \<open>
  \<^verbatim>\<open>lantiq_ring\<close>. With a caller number (\<open>cid\<close>) the function builds the caller-id message
  from the number and the name, and takes \<^verbatim>\<open>strlen(name)\<close>: when the name is \<^verbatim>\<open>NULL\<close> that
  reads through a null pointer, after the LED has been set blinking and before any ioctl
  rings the port. The error carries the calls made before it.
\<close>

definition lantiq_ring ::
  "int \<Rightarrow> int \<Rightarrow> string option \<Rightarrow> string option \<Rightarrow> fault \<times> action list + action list" where
  "lantiq_ring c r cid name =
     (if r \<noteq> 0 then
        (case cid of
           None \<Rightarrow> Inr [led_blink c LED_FAST_BLINK, IFX_TAPI_RING_START c]
         | Some number \<Rightarrow>
             (case name of
                None \<Rightarrow> Inl (Null_Pointer_Read, [led_blink c LED_FAST_BLINK])
              | Some name' \<Rightarrow>
                  Inr [led_blink c LED_FAST_BLINK, IFX_TAPI_CID_TX_SEQ_START c number name']))
      else Inr [IFX_TAPI_RING_STOP c, led_off c])"

definition lantiq_play_tone :: "int \<Rightarrow> int \<Rightarrow> action list" where
  "lantiq_play_tone c t =
     (if t \<noteq> TAPI_TONE_LOCALE_NONE then [IFX_TAPI_TONE_LOCAL_PLAY c TAPI_TONE_LOCALE_NONE] else [])
     @ [IFX_TAPI_TONE_LOCAL_PLAY c t]"

definition lantiq_standby :: "env \<Rightarrow> int \<Rightarrow> action list" where
  "lantiq_standby e c =
     IFX_TAPI_LINE_FEED_SET c IFX_TAPI_LINE_FEED_STANDBY #
       (if line_feed_set e \<noteq> 0 then []
        else IFX_TAPI_ENC_STOP c #
          (if enc_stop e \<noteq> 0 then []
           else IFX_TAPI_DEC_STOP c #
             (if dec_stop e \<noteq> 0 then [] else lantiq_play_tone c TAPI_TONE_LOCALE_NONE)))"

definition lantiq_jb_get_stats :: "env \<Rightarrow> int \<Rightarrow> lantiq_pvt \<Rightarrow> lantiq_pvt \<times> action list" where
  "lantiq_jb_get_stats e c pvt =
     (case jb_stats_get e of
        None \<Rightarrow> (pvt, [IFX_TAPI_JB_STATISTICS_GET c])
      | Some param \<Rightarrow>
          (pvt\<lparr>jb_size := ucast (nBufSize param),
                jb_underflow := nIsUnderflow param,
                jb_overflow := nDsOverflow param,
                jb_invalid := ucast (nInvalid param),
                jb_delay := ucast (nPODelay param)\<rparr>,
           [IFX_TAPI_JB_STATISTICS_GET c]))"

text \<open>The \<^verbatim>\<open>switch\<close> of \<^verbatim>\<open>lantiq_conf_enc\<close>: packet time and payload type per format.\<close>

fun enc_params :: "format_t \<Rightarrow> (int \<times> 8 word) option" where
  "enc_params AST_FORMAT_G723_1 = Some (30, RTP_G723_63)"
| "enc_params AST_FORMAT_G729A = Some (10, RTP_G729)"
| "enc_params AST_FORMAT_ULAW = Some (10, RTP_PCMU)"
| "enc_params AST_FORMAT_ALAW = Some (10, RTP_PCMA)"
| "enc_params AST_FORMAT_G726 = Some (10, RTP_G726)"
| "enc_params AST_FORMAT_ILBC = Some (30, RTP_ILBC)"
| "enc_params AST_FORMAT_SLINEAR = Some (10, RTP_SLIN8)"
| "enc_params AST_FORMAT_SLINEAR16 = Some (10, RTP_SLIN16)"
| "enc_params AST_FORMAT_G722 = Some (20, RTP_G722)"
| "enc_params AST_FORMAT_SIREN7 = Some (20, RTP_SIREN7)"
| "enc_params AST_FORMAT_NONE = None"
| "enc_params (AST_FORMAT_OTHER n) = None"

definition lantiq_conf_enc :: "int \<Rightarrow> format_t \<Rightarrow> lantiq_pvt \<Rightarrow> int \<times> lantiq_pvt \<times> action list" where
  "lantiq_conf_enc c formatid pvt =
     (case enc_params formatid of
        None \<Rightarrow> (- 1, pvt, [])
      | Some (pt, payload) \<Rightarrow>
          (0, pvt\<lparr>ptime := pt, rtp_payload := payload, codec := formatid\<rparr>,
           [IFX_TAPI_ENC_CFG_SET c, IFX_TAPI_ENC_START c, IFX_TAPI_DEC_START c]))"


subsection \<open>Call legs and call origination\<close>

text \<open>
  \<^verbatim>\<open>lantiq_channel\<close>: allocate a call leg for port \<open>c\<close> and make it the owner of the port
  (\<^verbatim>\<open>pvt = &iflist[c]\<close>). The result is \<open>None\<close> where the C function returns \<^verbatim>\<open>NULL\<close>.
\<close>

definition lantiq_channel ::
  "env \<Rightarrow> ast_state \<Rightarrow> int \<Rightarrow> string option \<Rightarrow> string option \<Rightarrow> format_t \<Rightarrow> lantiq_pvt
     \<Rightarrow> chan option \<times> lantiq_pvt \<times> action list" where
  "lantiq_channel e state c ext ctx format pvt =
     (case channel_alloc e of
        None \<Rightarrow> (None, pvt, [ast_channel_alloc state ext ctx c])
      | Some chan \<Rightarrow>
          (let pvt1 = pvt\<lparr>owner := Some chan\<rparr> in
           if format \<noteq> AST_FORMAT_NONE then
             (case lantiq_conf_enc c format pvt1 of
                (res, pvt2, a) \<Rightarrow>
                  if res < 0 then (None, pvt2, ast_channel_alloc state ext ctx c # a)
                  else (Some chan, pvt2, ast_channel_alloc state ext ctx c # a))
           else (Some chan, pvt1, [ast_channel_alloc state ext ctx c])))"

text \<open>
  The C library's \<^verbatim>\<open>atoi\<close> (not part of the sources): white space, an optional sign, then
  decimal digits up to the first other character; 0 when there is no digit.
\<close>

definition isspace :: "char \<Rightarrow> bool" where
  "isspace ch = (ch \<in> set [CHR 0x20, CHR 0x09, CHR 0x0A, CHR 0x0B, CHR 0x0C, CHR 0x0D])"

definition isdigit :: "char \<Rightarrow> bool" where
  "isdigit ch = (ch \<in> set ''0123456789'')"

fun atoi_digits :: "int \<Rightarrow> string \<Rightarrow> int" where
  "atoi_digits acc [] = acc"
| "atoi_digits acc (ch # cs) =
     (if isdigit ch then atoi_digits (10 * acc + (of_char ch - 48)) cs else acc)"

definition atoi :: "string \<Rightarrow> int" where
  "atoi s =
     (case dropWhile isspace s of
        [] \<Rightarrow> 0
      | ch # cs \<Rightarrow>
          if ch = CHR ''-'' then - atoi_digits 0 cs
          else if ch = CHR ''+'' then atoi_digits 0 cs
          else atoi_digits 0 (ch # cs))"

datatype ast_cause = AST_CAUSE_CHANNEL_UNACCEPTABLE

text \<open>
  \<^verbatim>\<open>ast_lantiq_requester\<close>. \<open>data\<close> is the destination string (\<^verbatim>\<open>NULL\<close> and the empty string
  are both \<open>[]\<close>). The second component of the result is the value stored in \<^verbatim>\<open>*cause\<close>,
  if any. The test of the port's state is written as in the source,
  \<^verbatim>\<open>! pvt->channel_state == ONHOOK\<close>: the negation binds tighter than the comparison.
\<close>

definition ast_lantiq_requester ::
  "lantiq_ctx \<Rightarrow> env \<Rightarrow> format_t \<Rightarrow> string \<Rightarrow> lantiq_pvt list
     \<Rightarrow> chan option \<times> ast_cause option \<times> lantiq_pvt list \<times> action list" where
  "ast_lantiq_requester dev_ctx e format data iflist =
     (if data = [] then (None, Some AST_CAUSE_CHANNEL_UNACCEPTABLE, iflist, [])
      else
        (let port_id1 = atoi data in
         if port_id1 < 1 \<or> port_id1 > channels dev_ctx
         then (None, Some AST_CAUSE_CHANNEL_UNACCEPTABLE, iflist, [])
         else
           (let port_id2 = port_id1 - 1;
                pvt = iflist ! nat port_id2
            in if c_eq (c_not (enum_val (channel_state pvt))) (enum_val ONHOOK) \<noteq> 0
               then (None, None, iflist, [])
               else
                 (case lantiq_channel e AST_STATE_DOWN port_id2 None None format pvt of
                    (chan, pvt1, a) \<Rightarrow> (chan, None, iflist[nat port_id2 := pvt1], a)))))"

text \<open>
  The fields of \<^verbatim>\<open>struct ast_channel\<close> that \<^verbatim>\<open>ast_lantiq_call\<close> reads (\<^verbatim>\<open>connected.id.number\<close>
  and \<^verbatim>\<open>connected.id.name\<close>); a string pointer that is \<^verbatim>\<open>NULL\<close> is \<open>None\<close>.
\<close>

record ast_channel =
  chan_ptr :: chan
  connected_number_valid :: bool
  connected_number_str :: "string option"
  connected_name_valid :: bool
  connected_name_str :: "string option"

text \<open>
  \<^verbatim>\<open>ast_lantiq_call\<close>, for the port \<open>pvt\<close> the call leg belongs to (\<^verbatim>\<open>ast->tech_pvt\<close>). The
  result is \<open>Inr\<close> of the value returned, the port afterwards and the calls made, or \<open>Inl\<close>
  of the error of \<^verbatim>\<open>lantiq_ring\<close>, which happens before the port's state is assigned.
\<close>

definition ast_lantiq_call ::
  "ast_channel \<Rightarrow> lantiq_pvt \<Rightarrow> fault \<times> action list + int \<times> lantiq_pvt \<times> action list" where
  "ast_lantiq_call ast pvt =
     (if channel_state pvt = ONHOOK then
        (let cid = (if connected_number_valid ast then connected_number_str ast else None);
             name = (if connected_name_valid ast then connected_name_str ast else None)
         in case lantiq_ring (port_id pvt) 1 cid name of
              Inl x \<Rightarrow> Inl x
            | Inr a \<Rightarrow>
                Inr (0, pvt\<lparr>channel_state := RINGING\<rparr>,
                     a @ [ast_setstate (chan_ptr ast) AST_STATE_RINGING,
                          ast_queue_control (chan_ptr ast) AST_CONTROL_RINGING]))
      else
        Inr (- 1, pvt,
             [ast_setstate (chan_ptr ast) AST_STATE_BUSY,
              ast_queue_control (chan_ptr ast) AST_CONTROL_BUSY]))"

subsection \<open>Device state\<close>

datatype ast_device_state =
    AST_DEVICE_UNKNOWN
  | AST_DEVICE_NOT_INUSE
  | AST_DEVICE_INUSE
  | AST_DEVICE_INVALID
  | AST_DEVICE_RINGING

text \<open>
  A read of \<^verbatim>\<open>iflist[port]\<close> with \<open>port\<close> outside the table (undefined behaviour in C) is the
  error \<open>Out_Of_Bounds port\<close>.
\<close>

datatype mem_error = Out_Of_Bounds int

definition ast_lantiq_devicestate ::
  "lantiq_ctx \<Rightarrow> lantiq_pvt list \<Rightarrow> string \<Rightarrow> mem_error + ast_device_state" where
  "ast_lantiq_devicestate dev_ctx iflist data =
     (let port = atoi data - 1 in
      if port < 1 \<or> port > channels dev_ctx then Inr AST_DEVICE_INVALID
      else if int (length iflist) \<le> port then Inl (Out_Of_Bounds port)
      else
        (case channel_state (iflist ! nat port) of
           ONHOOK \<Rightarrow> Inr AST_DEVICE_NOT_INUSE
         | OFFHOOK \<Rightarrow> Inr AST_DEVICE_INUSE
         | DIALING \<Rightarrow> Inr AST_DEVICE_INUSE
         | INCALL \<Rightarrow> Inr AST_DEVICE_INUSE
         | CALL_ENDED \<Rightarrow> Inr AST_DEVICE_INUSE
         | RINGING \<Rightarrow> Inr AST_DEVICE_RINGING
         | UNKNOWN \<Rightarrow> Inr AST_DEVICE_UNKNOWN))"

subsection \<open>Digit collector\<close>

text \<open>
  \<open>dtmfbuf\<close> is the array \<^verbatim>\<open>char dtmfbuf[AST_MAX_EXTENSION]\<close>; the string it holds ends
  before the first NUL. \<^verbatim>\<open>AST_MAX_EXTENSION\<close> comes from a header of the engine that is not
  part of the sources: it is a parameter of the functions that read it.
\<close>

definition NUL :: char where "NUL = CHR 0x00"

definition c_string :: "char list \<Rightarrow> string" where
  "c_string buf = takeWhile (\<lambda>ch. ch \<noteq> NUL) buf"

definition lantiq_reset_dtmfbuf :: "lantiq_pvt \<Rightarrow> lantiq_pvt" where
  "lantiq_reset_dtmfbuf pvt = pvt\<lparr>dtmfbuf := (dtmfbuf pvt)[0 := NUL], dtmfbuf_len := 0\<rparr>"

definition lantiq_end_dialing :: "int \<Rightarrow> lantiq_pvt \<Rightarrow> int \<times> lantiq_pvt \<times> action list" where
  "lantiq_end_dialing c pvt =
     (let (pvt1, a1) =
            (if dial_timer pvt \<noteq> 0
             then (pvt\<lparr>dial_timer := 0\<rparr>, [ast_sched_thread_del (dial_timer pvt)])
             else (pvt, []));
          a2 = (case owner pvt1 of Some chan \<Rightarrow> [ast_hangup chan] | None \<Rightarrow> [])
      in (0, lantiq_reset_dtmfbuf pvt1, a1 @ a2))"

definition lantiq_end_call :: "env \<Rightarrow> int \<Rightarrow> lantiq_pvt \<Rightarrow> int \<times> lantiq_pvt \<times> action list" where
  "lantiq_end_call e c pvt =
     (case owner pvt of
        Some chan \<Rightarrow>
          (case lantiq_jb_get_stats e c pvt of
             (pvt1, a) \<Rightarrow> (0, pvt1, a @ [ast_queue_hangup chan]))
      | None \<Rightarrow> (0, pvt, []))"

text \<open>
  \<^verbatim>\<open>ast_lantiq_hangup\<close>, the entry through which the engine tells the driver that the call
  leg \<open>ast\<close> of port \<open>pvt\<close> is gone.
\<close>

definition ast_lantiq_hangup ::
  "env \<Rightarrow> chan \<Rightarrow> lantiq_pvt \<Rightarrow> fault \<times> action list + int \<times> lantiq_pvt \<times> action list" where
  "ast_lantiq_hangup e ast pvt =
     (case (case channel_state pvt of
              RINGING \<Rightarrow>
                (case lantiq_ring (port_id pvt) 0 None None of
                   Inl x \<Rightarrow> Inl x
                 | Inr a \<Rightarrow> Inr (pvt\<lparr>channel_state := ONHOOK\<rparr>, a))
            | ONHOOK \<Rightarrow>
                (case lantiq_ring (port_id pvt) 0 None None of
                   Inl x \<Rightarrow> Inl x
                 | Inr a \<Rightarrow> Inr (pvt\<lparr>channel_state := ONHOOK\<rparr>, a))
            | _ \<Rightarrow>
                Inr (pvt\<lparr>channel_state := CALL_ENDED\<rparr>,
                     lantiq_play_tone (port_id pvt) TAPI_TONE_LOCALE_BUSY_CODE)) of
        Inl x \<Rightarrow> Inl x
      | Inr (pvt1, a1) \<Rightarrow>
          (case lantiq_jb_get_stats e (port_id pvt1) pvt1 of
             (pvt2, a2) \<Rightarrow>
               Inr (0, pvt2\<lparr>owner := None\<rparr>, a1 @ a2 @ [ast_setstate ast AST_STATE_DOWN])))"

text \<open>
  \<^verbatim>\<open>lantiq_dial\<close>: the dial attempt with the digits collected so far. The calls
  \<^verbatim>\<open>ast_hangup\<close> here and in \<^verbatim>\<open>lantiq_end_dialing\<close> are recorded like every call into the
  engine; what the engine does in return (it enters the driver again through
  \<^verbatim>\<open>ast_lantiq_hangup\<close>) is that other entry, not part of these functions.
\<close>

definition lantiq_dial :: "env \<Rightarrow> lantiq_pvt \<Rightarrow> lantiq_pvt \<times> action list" where
  "lantiq_dial e pvt =
     (if exists_extension e (context_pvt pvt) (c_string (dtmfbuf pvt)) then
        (case lantiq_channel e AST_STATE_UP (port_id pvt) (Some (c_string (dtmfbuf pvt)))
                (Some (context_pvt pvt)) AST_FORMAT_NONE pvt of
           (None, pvt1, a) \<Rightarrow> (pvt1, a)
         | (Some chan, pvt1, a) \<Rightarrow>
             (lantiq_reset_dtmfbuf
                (pvt1\<lparr>owner := Some chan, channel_state := INCALL,
                      call_setup_start := now_ms e, call_start := epoch_s e\<rparr>),
              a @ [ast_setstate chan AST_STATE_RING, ast_pbx_start chan] @
                (if pbx_start e \<noteq> 0 then [ast_hangup chan] else [])))
      else
        (lantiq_reset_dtmfbuf (pvt\<lparr>channel_state := CALL_ENDED\<rparr>),
         lantiq_play_tone (port_id pvt) TAPI_TONE_LOCALE_BUSY_CODE))"

text \<open>
  \<^verbatim>\<open>lantiq_event_dial_timeout\<close>, the callback of the inter-digit timer. The test is written
  as in the source, \<^verbatim>\<open>! pvt->channel_state == ONHOOK\<close>.
\<close>

definition lantiq_event_dial_timeout :: "env \<Rightarrow> lantiq_pvt \<Rightarrow> int \<times> lantiq_pvt \<times> action list" where
  "lantiq_event_dial_timeout e pvt =
     (let pvt1 = pvt\<lparr>dial_timer := 0\<rparr> in
      if c_eq (c_not (enum_val (channel_state pvt1))) (enum_val ONHOOK) \<noteq> 0
      then (case lantiq_dial e pvt1 of (pvt2, a) \<Rightarrow> (0, pvt2, a))
      else (0, pvt1, []))"

definition lantiq_send_digit :: "int \<Rightarrow> char \<Rightarrow> lantiq_pvt \<Rightarrow> action list" where
  "lantiq_send_digit c digit pvt =
     (case owner pvt of Some chan \<Rightarrow> [ast_queue_frame_dtmf chan digit] | None \<Rightarrow> [])"

text \<open>
  The body of \<^verbatim>\<open>case DIALING\<close> in \<^verbatim>\<open>lantiq_dev_event_digit\<close>, which \<^verbatim>\<open>case OFFHOOK\<close> falls
  through to.
\<close>

definition dialing_digit ::
  "lantiq_ctx \<Rightarrow> env \<Rightarrow> int \<Rightarrow> int \<Rightarrow> char \<Rightarrow> lantiq_pvt \<Rightarrow> lantiq_pvt \<times> action list" where
  "dialing_digit dev_ctx e AST_MAX_EXTENSION c digit pvt =
     (if digit = CHR ''#'' then
        (let (pvt1, a1) =
               (if dial_timer pvt \<noteq> 0
                then (pvt\<lparr>dial_timer := 0\<rparr>, [ast_sched_thread_del (dial_timer pvt)])
                else (pvt, []));
             (pvt2, a2) = lantiq_dial e pvt1
         in (pvt2, a1 @ a2))
      else if dtmfbuf_len pvt < AST_MAX_EXTENSION - 1 then
        (let pvt1 = pvt\<lparr>dtmfbuf := (dtmfbuf pvt)[nat (dtmfbuf_len pvt) := digit,
                                               nat (dtmfbuf_len pvt + 1) := NUL],
                        dtmfbuf_len := dtmfbuf_len pvt + 1\<rparr>
         in if dial_timer pvt1 = 0
            then (pvt1\<lparr>dial_timer := sched_add e\<rparr>,
                  [ast_sched_thread_add (interdigit_timeout dev_ctx)])
            else (pvt1\<lparr>dial_timer := sched_add e\<rparr>,
                  [AST_SCHED_REPLACE (dial_timer pvt1) (interdigit_timeout dev_ctx)]))
      else
        (case lantiq_end_dialing c pvt of
           (ret, pvt1, a) \<Rightarrow>
             (pvt1\<lparr>channel_state := CALL_ENDED\<rparr>,
              a @ lantiq_play_tone (port_id pvt1) TAPI_TONE_LOCALE_BUSY_CODE)))"

definition lantiq_dev_event_digit ::
  "lantiq_ctx \<Rightarrow> env \<Rightarrow> int \<Rightarrow> int \<Rightarrow> char \<Rightarrow> lantiq_pvt \<Rightarrow> lantiq_pvt \<times> action list" where
  "lantiq_dev_event_digit dev_ctx e AST_MAX_EXTENSION c digit pvt =
     (case channel_state pvt of
        INCALL \<Rightarrow> (pvt, lantiq_send_digit c digit pvt)
      | OFFHOOK \<Rightarrow>
          (case dialing_digit dev_ctx e AST_MAX_EXTENSION c digit (pvt\<lparr>channel_state := DIALING\<rparr>) of
             (pvt1, a) \<Rightarrow>
               (pvt1, lantiq_play_tone c TAPI_TONE_LOCALE_NONE @ [led_blink c LED_SLOW_BLINK] @ a))
      | DIALING \<Rightarrow> dialing_digit dev_ctx e AST_MAX_EXTENSION c digit pvt
      | _ \<Rightarrow> (pvt, []))"

text \<open>
  A sequence of digit events on port \<open>c\<close>, as the event dispatcher delivers them one after
  the other; each event comes with what the outside answers while it is handled.
\<close>

fun digit_events ::
  "lantiq_ctx \<Rightarrow> int \<Rightarrow> int \<Rightarrow> (env \<times> char) list \<Rightarrow> lantiq_pvt \<Rightarrow> lantiq_pvt" where
  "digit_events dev_ctx AST_MAX_EXTENSION c [] pvt = pvt"
| "digit_events dev_ctx AST_MAX_EXTENSION c ((e, digit) # evs) pvt =
     digit_events dev_ctx AST_MAX_EXTENSION c evs
       (fst (lantiq_dev_event_digit dev_ctx e AST_MAX_EXTENSION c digit pvt))"

text \<open>
  The digit buffer is well formed: the array has \<^verbatim>\<open>AST_MAX_EXTENSION\<close> elements and the
  recorded length leaves room for the terminating NUL.
\<close>

definition dtmfbuf_ok :: "int \<Rightarrow> lantiq_pvt \<Rightarrow> bool" where
  "dtmfbuf_ok AST_MAX_EXTENSION pvt =
     (int (length (dtmfbuf pvt)) = AST_MAX_EXTENSION \<and>
      0 \<le> dtmfbuf_len pvt \<and> dtmfbuf_len pvt < AST_MAX_EXTENSION)"

subsection \<open>Hook events\<close>

definition accept_call :: "env \<Rightarrow> int \<Rightarrow> lantiq_pvt \<Rightarrow> int \<times> lantiq_pvt \<times> action list" where
  "accept_call e c pvt =
     (case owner pvt of
        Some chan \<Rightarrow>
          (case owner_state e of
             AST_STATE_RINGING \<Rightarrow>
               (0, pvt\<lparr>channel_state := INCALL, call_start := epoch_s e, call_answer := epoch_s e\<rparr>,
                lantiq_play_tone c TAPI_TONE_LOCALE_NONE @ [ast_queue_control chan AST_CONTROL_ANSWER])
           | _ \<Rightarrow> (0, pvt, []))
      | None \<Rightarrow> (0, pvt, []))"

text \<open>\<^verbatim>\<open>lantiq_dev_event_hook\<close>: \<open>state\<close> is non-zero when the port goes on-hook.\<close>

definition lantiq_dev_event_hook ::
  "env \<Rightarrow> int \<Rightarrow> int \<Rightarrow> lantiq_pvt \<Rightarrow> int \<times> lantiq_pvt \<times> action list" where
  "lantiq_dev_event_hook e c state pvt =
     (if state \<noteq> 0 then
        (case (case channel_state pvt of
                 DIALING \<Rightarrow> lantiq_end_dialing c pvt
               | INCALL \<Rightarrow> lantiq_end_call e c pvt
               | _ \<Rightarrow> (- 1, pvt, [])) of
           (ret, pvt1, a) \<Rightarrow>
             (ret, pvt1\<lparr>channel_state := ONHOOK\<rparr>, a @ lantiq_standby e c @ [led_off c]))
      else if line_feed_set e \<noteq> 0
      then (- 1, pvt, [IFX_TAPI_LINE_FEED_SET c IFX_TAPI_LINE_FEED_ACTIVE])
      else
        (case channel_state pvt of
           RINGING \<Rightarrow>
             (case accept_call e c pvt of
                (ret, pvt1, a) \<Rightarrow>
                  (ret, pvt1,
                   IFX_TAPI_LINE_FEED_SET c IFX_TAPI_LINE_FEED_ACTIVE # a @
                     [led_blink c LED_SLOW_BLINK]))
         | _ \<Rightarrow>
             (0, pvt\<lparr>channel_state := OFFHOOK\<rparr>,
              IFX_TAPI_LINE_FEED_SET c IFX_TAPI_LINE_FEED_ACTIVE #
                lantiq_play_tone c TAPI_TONE_LOCALE_DIAL_CODE @ [led_on c])))"

subsection \<open>Concrete ports and frames\<close>

text \<open>
  Port 0 of a driver built with a four-character digit buffer, with a call leg in a call,
  after \<^verbatim>\<open>lantiq_conf_enc\<close> for a format; its sequence number is the last before the wrap.
\<close>

definition port_in_call :: "format_t \<Rightarrow> lantiq_pvt" where
  "port_in_call format =
     fst (snd (lantiq_conf_enc 0 format
       ((lantiq_create_pvt 4 0)\<lparr>owner := Some 7, channel_state := INCALL,
          rtp_seqno := 65535, rtp_timestamp := 1000\<rparr>)))"

text \<open>20 ms of 16 kHz signed linear audio, and 20 ms of G.722.\<close>

definition slin16_frame :: ast_frame where
  "slin16_frame =
     \<lparr>frametype = AST_FRAME_VOICE, subclass_codec = AST_FORMAT_SLINEAR16,
      datalen = 640, samples = 320, len = 20\<rparr>"

definition g722_frame :: ast_frame where
  "g722_frame =
     \<lparr>frametype = AST_FRAME_VOICE, subclass_codec = AST_FORMAT_G722,
      datalen = 160, samples = 320, len = 20\<rparr>"

text \<open>
  Two frames of G.711 whose fields make a product of the packetizer leave the range of a
  32-bit \<^verbatim>\<open>int\<close>: one that declares 20000000 samples in 160 bytes, and one of 1000 bytes
  that declares a duration of 42949680 ms.
\<close>

definition dense_frame :: ast_frame where
  "dense_frame =
     \<lparr>frametype = AST_FRAME_VOICE, subclass_codec = AST_FORMAT_ULAW,
      datalen = 160, samples = 20000000, len = 20\<rparr>"


text \<open>
  An outside in which the dialplan has the single extension 12, a call leg can be
  allocated, the PBX starts and every ioctl succeeds; a driver with two ports; port 0
  idle, and port 0 off-hook after the digits 1 and 2.
\<close>

definition quiet_env :: env where
  "quiet_env =
     \<lparr>exists_extension = (\<lambda>ctx ext. ext = ''12''), channel_alloc = Some 7, pbx_start = 0,
      now_ms = 5000, epoch_s = 86400, sched_add = 3,
      jb_stats_get = Some \<lparr>nBufSize = 720, nIsUnderflow = 1, nDsOverflow = 2,
                            nInvalid = 3, nPODelay = 40\<rparr>,
      line_feed_set = 0, enc_stop = 0, dec_stop = 0, owner_state = AST_STATE_UP\<rparr>"

definition two_ports :: lantiq_ctx where
  "two_ports = \<lparr>channels = 2, interdigit_timeout = 2000\<rparr>"

definition idle_port :: "int \<Rightarrow> lantiq_pvt" where
  "idle_port i = (lantiq_create_pvt 4 i)\<lparr>channel_state := ONHOOK\<rparr>"

definition dialing_port :: lantiq_pvt where
  "dialing_port =
     digit_events two_ports 4 0 [(quiet_env, CHR ''1''), (quiet_env, CHR ''2'')]
       ((idle_port 0)\<lparr>channel_state := OFFHOOK\<rparr>)"

section \<open>Proofs\<close>

subsection \<open>Truncating division and wrap-around\<close>

lemma c_div_nonneg: "0 \<le> a \<Longrightarrow> 0 < b \<Longrightarrow> c_div a b = a div b"
  by (cases "a = 0") (simp_all add: c_div_def)

lemma c_div_nonpos_neg: "a \<le> 0 \<Longrightarrow> b < 0 \<Longrightarrow> c_div a b = (- a) div (- b)"
  by (cases "a = 0") (simp_all add: c_div_def)

lemma c_div_nonpos_pos: "a \<le> 0 \<Longrightarrow> 0 < b \<Longrightarrow> c_div a b = - ((- a) div b)"
  by (cases "a = 0") (simp_all add: c_div_def)

lemma abs_c_div: "\<bar>c_div a b\<bar> = \<bar>a\<bar> div \<bar>b\<bar>"
proof (cases "a = 0 \<or> b = 0")
  case True
  then show ?thesis by (auto simp: c_div_def)
next
  case False
  then have "\<bar>sgn a\<bar> = 1" "\<bar>sgn b\<bar> = 1" by (simp_all add: abs_sgn_eq)
  moreover have "0 \<le> \<bar>a\<bar> div \<bar>b\<bar>" using False by (simp add: pos_imp_zdiv_nonneg_iff)
  ultimately show ?thesis by (simp add: c_div_def abs_mult)
qed

lemma div_mult_le_int: "0 < (d::int) \<Longrightarrow> (a div d) * d \<le> a"
proof -
  assume d: "0 < d"
  have "d * (a div d) + a mod d = a" by simp
  moreover have "0 \<le> a mod d" using d by simp
  ultimately have "d * (a div d) \<le> a" by linarith
  then show ?thesis by (simp add: mult.commute)
qed

lemma int32_range: "in32 (int32 x)"
proof -
  have "0 \<le> (x + 2 ^ 31) mod (2 ^ 32 :: int)" "(x + 2 ^ 31) mod (2 ^ 32 :: int) < 2 ^ 32"
    by simp_all
  then show ?thesis by (simp add: int32_def in32_def)
qed

lemma int32_id: "in32 x \<Longrightarrow> int32 x = x"
  by (simp add: int32_def in32_def mod_pos_pos_trivial)

text \<open>Dividing by a positive number moves a value towards 0, and so does multiplying back.\<close>

lemma c_div_pos_between:
  assumes d: "0 < d"
  shows "0 \<le> a \<Longrightarrow> 0 \<le> c_div a d \<and> c_div a d \<le> a \<and> 0 \<le> c_div a d * d \<and> c_div a d * d \<le> a"
    and "a \<le> 0 \<Longrightarrow> a \<le> c_div a d \<and> c_div a d \<le> 0 \<and> a \<le> c_div a d * d \<and> c_div a d * d \<le> 0"
proof -
  assume a: "0 \<le> a"
  have q: "0 \<le> a div d" using a d by (simp add: pos_imp_zdiv_nonneg_iff)
  have m: "a div d * d \<le> a" using d by (rule div_mult_le_int)
  have "a div d \<le> a div d * d" using q d by (simp add: mult_le_cancel_left1)
  with q m a d show "0 \<le> c_div a d \<and> c_div a d \<le> a \<and> 0 \<le> c_div a d * d \<and> c_div a d * d \<le> a"
    by (simp add: c_div_nonneg)
next
  assume a: "a \<le> 0"
  have q: "0 \<le> (- a) div d" using a d by (simp add: pos_imp_zdiv_nonneg_iff)
  have m: "(- a) div d * d \<le> - a" using d by (rule div_mult_le_int)
  have "(- a) div d \<le> (- a) div d * d" using q d by (simp add: mult_le_cancel_left1)
  with q m a d show "a \<le> c_div a d \<and> c_div a d \<le> 0 \<and> a \<le> c_div a d * d \<and> c_div a d * d \<le> 0"
    by (simp add: c_div_nonpos_pos)
qed

lemma c_div_pos_in32:
  assumes "in32 a" "0 < d"
  shows "in32 (c_div a d)" and "in32 (c_div a d * d)" and "\<bar>c_div a d * d\<bar> \<le> \<bar>a\<bar>"
  using assms c_div_pos_between [OF assms(2), of a]
  by (cases "0 \<le> a"; simp add: in32_def)+

lemma chunk_bound_pos:
  assumes "0 < s" "0 < d"
  shows "0 \<le> c_div (c_div (500 * s) d * d) s \<and> c_div (c_div (500 * s) d * d) s \<le> 500"
proof -
  let ?q = "(500 * s) div d"
  have q0: "0 \<le> ?q" using assms by (simp add: pos_imp_zdiv_nonneg_iff)
  have 1: "c_div (500 * s) d = ?q" using assms by (simp add: c_div_nonneg)
  have qd: "?q * d \<le> 500 * s" using assms by (rule_tac div_mult_le_int)
  have qd0: "0 \<le> ?q * d" using q0 assms by simp
  have 2: "c_div (?q * d) s = (?q * d) div s" using qd0 assms by (simp add: c_div_nonneg)
  have "(?q * d) div s \<le> (500 * s) div s" using qd assms by (intro zdiv_mono1) simp_all
  moreover have "0 \<le> (?q * d) div s" using qd0 assms by (simp add: pos_imp_zdiv_nonneg_iff)
  ultimately show ?thesis using 1 2 assms by simp
qed

lemma chunk_bound_neg:
  assumes "s < 0" "0 < d"
  shows "0 \<le> c_div (c_div (500 * s) d * d) s \<and> c_div (c_div (500 * s) d * d) s \<le> 500"
proof -
  let ?q = "(- (500 * s)) div d"
  have q0: "0 \<le> ?q" using assms by (simp add: pos_imp_zdiv_nonneg_iff)
  have 1: "c_div (500 * s) d = - ?q" using assms by (simp add: c_div_nonpos_pos)
  have qd: "?q * d \<le> - (500 * s)" using assms by (rule_tac div_mult_le_int)
  have qd0: "0 \<le> ?q * d" using q0 assms by simp
  have 2: "c_div (- ?q * d) s = (?q * d) div (- s)" using qd0 assms by (simp add: c_div_nonpos_neg)
  have "(?q * d) div (- s) \<le> (500 * (- s)) div (- s)" using qd assms by (intro zdiv_mono1) simp_all
  moreover have "0 \<le> (?q * d) div (- s)" using qd0 assms by (simp add: pos_imp_zdiv_nonneg_iff)
  ultimately show ?thesis using 1 2 assms by simp
qed

text \<open>
  The initial chunk length, as computed with wrap-around, from the subframe count \<open>s\<close>
  and the data length \<open>d\<close>. When \<open>500 * s\<close> fits, nothing wraps and the length is between
  0 and 500; when it does not fit, \<open>s\<close> is so large that the last quotient is below 500 in
  absolute value, but it can be negative.
\<close>

lemma wrapped_chunk_exact:
  assumes fit: "in32 (500 * s)" and d: "0 < d" and s: "s \<noteq> 0"
  shows "int32 (c_div (int32 (int32 (c_div (int32 (500 * s)) d) * d)) s) =
           c_div (c_div (500 * s) d * d) s"
    and "0 \<le> c_div (c_div (500 * s) d * d) s \<and> c_div (c_div (500 * s) d * d) s \<le> 500"
proof -
  show b: "0 \<le> c_div (c_div (500 * s) d * d) s \<and> c_div (c_div (500 * s) d * d) s \<le> 500"
    using chunk_bound_pos [of s d] chunk_bound_neg [of s d] d s by (cases "0 < s") simp_all
  then have "in32 (c_div (c_div (500 * s) d * d) s)" by (simp add: in32_def)
  with fit c_div_pos_in32 [OF fit d]
  show "int32 (c_div (int32 (int32 (c_div (int32 (500 * s)) d) * d)) s) =
           c_div (c_div (500 * s) d * d) s"
    by (simp add: int32_id)
qed

lemma wrapped_chunk_le_500:
  assumes d: "0 < d" and s: "s \<noteq> 0"
  shows "int32 (c_div (int32 (int32 (c_div (int32 (500 * s)) d) * d)) s) \<le> 500"
proof (cases "in32 (500 * s)")
  case True
  from wrapped_chunk_exact [OF True d s] show ?thesis by simp
next
  case False
  then have big: "4294968 \<le> \<bar>s\<bar>" by (auto simp: in32_def)
  let ?A = "int32 (500 * s)"
  let ?B = "c_div ?A d * d"
  have A: "in32 ?A" by (rule int32_range)
  note r = c_div_pos_in32 [OF A d]
  have "\<bar>?A\<bar> \<le> 2 ^ 31" using A by (auto simp: in32_def)
  with r(3) have B: "\<bar>?B\<bar> \<le> 2 ^ 31" by simp
  have "\<bar>?B\<bar> div \<bar>s\<bar> \<le> \<bar>?B\<bar> div 4294968"
    using big by (intro zdiv_mono2) simp_all
  also have "\<dots> \<le> 2 ^ 31 div 4294968"
    using B by (intro zdiv_mono1) simp_all
  also have "\<dots> = (499::int)" by simp
  finally have "\<bar>c_div ?B s\<bar> \<le> 499" by (simp add: abs_c_div)
  then have q: "- 499 \<le> c_div ?B s" "c_div ?B s \<le> 499" by simp_all
  then have "in32 (c_div ?B s)" by (simp add: in32_def)
  with r(1,2) q show ?thesis by (simp add: int32_id)
qed

lemma chunk_length_le_500:
  assumes "0 < datalen f" "subframes pvt f \<noteq> 0"
  shows "chunk_length pvt f \<le> 500"
  using wrapped_chunk_le_500 [OF assms]
  by (simp add: chunk_length_def subframes_rtp_def RTP_BUFFER_LEN_def RTP_HEADER_LEN_def)

lemma chunk_length_bounds:
  assumes "in32 (500 * subframes pvt f)" "0 < datalen f" "subframes pvt f \<noteq> 0"
  shows "0 \<le> chunk_length pvt f \<and> chunk_length pvt f \<le> 500"
  using wrapped_chunk_exact [OF assms]
  by (simp add: chunk_length_def subframes_rtp_def RTP_BUFFER_LEN_def RTP_HEADER_LEN_def)


text \<open>When the product fits, the samples of a chunk are the exact truncated quotient.\<close>

lemma length_samples_exact:
  assumes "in32 (l * samples f)" "0 < datalen f"
  shows "length_samples f l = c_div (l * samples f) (datalen f)"
  using assms c_div_pos_in32(1) [OF assms]
  by (simp add: length_samples_def int32_id)

subsection \<open>The packetizer loop\<close>

lemma write_loop_Cons:
  "write_loop f pt pvt h l s (ret # rets) =
     (if h < datalen f then
        if ret < 0 then (Returned (- 1), step_pvt f pt pvt h l s, [step_packet f pt pvt h l ret])
        else (case write_loop f pt (step_pvt f pt pvt h l s) (h + step_length f h l)
                     (step_length f h l) (step_samples f h l s) rets of
                (r, pvt3, pkts) \<Rightarrow> (r, pvt3, step_packet f pt pvt h l ret # pkts))
      else (Returned 0, pvt, []))"
  by (simp add: Let_def step_length_def step_samples_def step_packet_def step_pvt_def)

declare write_loop.simps(2) [simp del]

lemma step_samples_inv:
  "s = length_samples f l \<Longrightarrow>
   step_samples f h l s = length_samples f (step_length f h l)"
  by (simp add: step_samples_def step_length_def)

lemma step_length_bounds:
  "h < datalen f \<Longrightarrow> 0 \<le> l \<Longrightarrow> l \<le> 500 \<Longrightarrow> 0 \<le> step_length f h l \<and> step_length f h l \<le> 500"
  by (simp add: step_length_def RTP_BUFFER_LEN_def RTP_HEADER_LEN_def)

lemma step_length_within:
  "0 \<le> l \<Longrightarrow> l \<le> 500 \<Longrightarrow> h + step_length f h l \<le> datalen f"
  by (simp add: step_length_def RTP_BUFFER_LEN_def RTP_HEADER_LEN_def)

lemma step_pvt_simps:
  "rtp_seqno (step_pvt f pt pvt h l s) = rtp_seqno pvt + 1"
  "rtp_timestamp (step_pvt f pt pvt h l s) = rtp_timestamp pvt +
     word_of_int (if pt = RTP_G722 then c_div (step_samples f h l s) 2 else step_samples f h l s)"
  by (simp_all add: step_pvt_def)

lemma step_packet_simps:
  "pkt_payload_type (step_packet f pt pvt h l ret) = pt"
  "pkt_seqno (step_packet f pt pvt h l ret) = rtp_seqno pvt"
  "pkt_timestamp (step_packet f pt pvt h l ret) = rtp_timestamp pvt"
  "pkt_offset (step_packet f pt pvt h l ret) = h"
  "pkt_length (step_packet f pt pvt h l ret) = step_length f h l"
  "pkt_ret (step_packet f pt pvt h l ret) = ret"
  by (simp_all add: step_packet_def)

lemma step_advance:
  "s = length_samples f l \<Longrightarrow>
   rtp_timestamp (step_pvt f pt pvt h l s) =
     pkt_timestamp (step_packet f pt pvt h l ret) +
       word_of_int (timestamp_advance f (step_packet f pt pvt h l ret))"
  by (simp add: step_pvt_simps step_packet_simps timestamp_advance_def chunk_samples_def
        step_samples_inv)

lemma write_loop_seqno:
  "write_loop f pt pvt h l s rets = (r, pvt', pkts) \<Longrightarrow>
     rtp_seqno pvt' = rtp_seqno pvt + of_nat (length pkts) \<and>
     (\<forall>i < length pkts. pkt_seqno (pkts ! i) = rtp_seqno pvt + of_nat i)"
proof (induction rets arbitrary: pvt h l s pkts r pvt')
  case Nil
  then show ?case by (auto split: if_splits)
next
  case (Cons ret rets)
  show ?case
  proof (cases "h < datalen f \<and> 0 \<le> ret")
    case False
    with Cons.prems show ?thesis
      by (auto simp: write_loop_Cons step_pvt_simps step_packet_simps split: if_splits)
  next
    case True
    obtain r1 p1 pkts1 where rec:
      "write_loop f pt (step_pvt f pt pvt h l s) (h + step_length f h l)
         (step_length f h l) (step_samples f h l s) rets = (r1, p1, pkts1)"
      by (metis prod_cases3)
    with Cons.prems True have eq: "pvt' = p1" "pkts = step_packet f pt pvt h l ret # pkts1"
      by (simp_all add: write_loop_Cons)
    from Cons.IH [OF rec] have ih:
      "rtp_seqno p1 = rtp_seqno pvt + 1 + of_nat (length pkts1)"
      "\<And>i. i < length pkts1 \<Longrightarrow> pkt_seqno (pkts1 ! i) = rtp_seqno pvt + 1 + of_nat i"
      by (simp_all add: step_pvt_simps)
    show ?thesis
    proof (intro conjI allI impI)
      show "rtp_seqno pvt' = rtp_seqno pvt + of_nat (length pkts)"
        using eq ih(1) by simp
    next
      fix i assume "i < length pkts"
      then show "pkt_seqno (pkts ! i) = rtp_seqno pvt + of_nat i"
        using eq ih(2) by (cases i) (simp_all add: step_packet_simps)
    qed
  qed
qed

lemma write_loop_payload_type:
  "write_loop f pt pvt h l s rets = (r, pvt', pkts) \<Longrightarrow> p \<in> set pkts \<Longrightarrow> pkt_payload_type p = pt"
proof (induction rets arbitrary: pvt h l s pkts r pvt')
  case Nil
  then show ?case by (auto split: if_splits)
next
  case (Cons ret rets)
  then show ?case
    by (auto simp: write_loop_Cons step_packet_simps split: if_splits prod.splits)
qed

lemma step_length_upper: "l \<le> 500 \<Longrightarrow> step_length f h l \<le> 500"
  by (simp add: step_length_def RTP_BUFFER_LEN_def RTP_HEADER_LEN_def)

lemma write_loop_length_upper:
  "write_loop f pt pvt h l s rets = (r, pvt', pkts) \<Longrightarrow> l \<le> 500 \<Longrightarrow> p \<in> set pkts \<Longrightarrow>
     pkt_length p \<le> 500"
proof (induction rets arbitrary: pvt h l s pkts r pvt')
  case Nil
  then show ?case by (auto split: if_splits)
next
  case (Cons ret rets)
  note u = step_length_upper [OF Cons.prems(2), of f h]
  show ?case
  proof (cases "h < datalen f \<and> 0 \<le> ret")
    case False
    with Cons.prems u show ?thesis
      by (auto simp: write_loop_Cons step_packet_simps split: if_splits)
  next
    case True
    obtain r1 p1 pkts1 where rec:
      "write_loop f pt (step_pvt f pt pvt h l s) (h + step_length f h l)
         (step_length f h l) (step_samples f h l s) rets = (r1, p1, pkts1)"
      by (metis prod_cases3)
    with Cons.prems(1) True have eq: "pkts = step_packet f pt pvt h l ret # pkts1"
      by (simp add: write_loop_Cons)
    show ?thesis
    proof (cases "p = step_packet f pt pvt h l ret")
      case True
      with u show ?thesis by (simp add: step_packet_simps)
    next
      case False
      with eq Cons.prems(3) have "p \<in> set pkts1" by simp
      from Cons.IH [OF rec u this] show ?thesis .
    qed
  qed
qed

lemma write_loop_length:
  "write_loop f pt pvt h l s rets = (r, pvt', pkts) \<Longrightarrow> 0 \<le> l \<Longrightarrow> l \<le> 500 \<Longrightarrow> 0 \<le> h \<Longrightarrow>
     p \<in> set pkts \<Longrightarrow>
     0 \<le> pkt_length p \<and> pkt_length p \<le> 500 \<and>
     0 \<le> pkt_offset p \<and> pkt_offset p + pkt_length p \<le> datalen f"
proof (induction rets arbitrary: pvt h l s pkts r pvt')
  case Nil
  then show ?case by (auto split: if_splits)
next
  case (Cons ret rets)
  show ?case
  proof (cases "h < datalen f")
    case False
    with Cons.prems show ?thesis by (simp add: write_loop_Cons)
  next
    case True
    note b = step_length_bounds [OF True Cons.prems(2,3)]
    note w = step_length_within [OF Cons.prems(2,3), of h f]
    have first: "0 \<le> pkt_length (step_packet f pt pvt h l ret) \<and>
        pkt_length (step_packet f pt pvt h l ret) \<le> 500 \<and>
        0 \<le> pkt_offset (step_packet f pt pvt h l ret) \<and>
        pkt_offset (step_packet f pt pvt h l ret) + pkt_length (step_packet f pt pvt h l ret)
          \<le> datalen f"
      using b w Cons.prems(4) by (simp add: step_packet_simps)
    show ?thesis
    proof (cases "ret < 0")
      case True
      with \<open>h < datalen f\<close> Cons.prems(1,5) first show ?thesis
        by (auto simp: write_loop_Cons)
    next
      case False
      obtain r1 p1 pkts1 where rec:
        "write_loop f pt (step_pvt f pt pvt h l s) (h + step_length f h l)
           (step_length f h l) (step_samples f h l s) rets = (r1, p1, pkts1)"
        by (metis prod_cases3)
      with Cons.prems(1) False \<open>h < datalen f\<close>
      have eq: "pkts = step_packet f pt pvt h l ret # pkts1"
        by (simp add: write_loop_Cons)
      have h2: "0 \<le> h + step_length f h l" using b Cons.prems(4) by simp
      show ?thesis
      proof (cases "p = step_packet f pt pvt h l ret")
        case True
        with first show ?thesis by simp
      next
        case False
        with eq Cons.prems(5) have "p \<in> set pkts1" by simp
        from Cons.IH [OF rec _ _ h2 this] b show ?thesis by simp
      qed
    qed
  qed
qed

lemma write_loop_timestamp:
  "write_loop f pt pvt h l s rets = (r, pvt', pkts) \<Longrightarrow> s = length_samples f l \<Longrightarrow>
     (pkts = [] \<longrightarrow> rtp_timestamp pvt' = rtp_timestamp pvt) \<and>
     (pkts \<noteq> [] \<longrightarrow> pkt_timestamp (hd pkts) = rtp_timestamp pvt) \<and>
     (\<forall>i < length pkts.
        pkt_timestamp (pkts ! i) + word_of_int (timestamp_advance f (pkts ! i)) =
          (if Suc i < length pkts then pkt_timestamp (pkts ! Suc i) else rtp_timestamp pvt'))"
proof (induction rets arbitrary: pvt h l s pkts r pvt')
  case Nil
  then show ?case by (auto split: if_splits)
next
  case (Cons ret rets)
  note adv = step_advance [OF Cons.prems(2), of pt pvt h ret]
  show ?case
  proof (cases "h < datalen f \<and> 0 \<le> ret")
    case False
    with Cons.prems(1) adv show ?thesis
      by (auto simp: write_loop_Cons step_packet_simps split: if_splits)
  next
    case True
    let ?pkt = "step_packet f pt pvt h l ret"
    let ?pvt2 = "step_pvt f pt pvt h l s"
    obtain r1 p1 pkts1 where rec:
      "write_loop f pt ?pvt2 (h + step_length f h l)
         (step_length f h l) (step_samples f h l s) rets = (r1, p1, pkts1)"
      by (metis prod_cases3)
    with Cons.prems(1) True have eq: "pvt' = p1" "pkts = ?pkt # pkts1"
      by (simp_all add: write_loop_Cons)
    from Cons.IH [OF rec step_samples_inv [OF Cons.prems(2)]] eq(1) have ih:
      "pkts1 = [] \<Longrightarrow> rtp_timestamp pvt' = rtp_timestamp ?pvt2"
      "pkts1 \<noteq> [] \<Longrightarrow> pkt_timestamp (hd pkts1) = rtp_timestamp ?pvt2"
      "\<And>i. i < length pkts1 \<Longrightarrow>
         pkt_timestamp (pkts1 ! i) + word_of_int (timestamp_advance f (pkts1 ! i)) =
           (if Suc i < length pkts1 then pkt_timestamp (pkts1 ! Suc i) else rtp_timestamp pvt')"
      by simp_all
    have first: "pkt_timestamp ?pkt + word_of_int (timestamp_advance f ?pkt) =
        (if pkts1 \<noteq> [] then pkt_timestamp (pkts1 ! 0) else rtp_timestamp pvt')"
      using adv ih(1,2) by (cases pkts1) auto
    show ?thesis
    proof (intro conjI allI impI)
      show "pkts = [] \<Longrightarrow> rtp_timestamp pvt' = rtp_timestamp pvt" using eq by simp
      show "pkts \<noteq> [] \<Longrightarrow> pkt_timestamp (hd pkts) = rtp_timestamp pvt"
        using eq by (simp add: step_packet_simps)
    next
      fix i assume "i < length pkts"
      then show "pkt_timestamp (pkts ! i) + word_of_int (timestamp_advance f (pkts ! i)) =
          (if Suc i < length pkts then pkt_timestamp (pkts ! Suc i) else rtp_timestamp pvt')"
        using eq(2) first ih(3) by (cases i) auto
    qed
  qed
qed

lemma write_loop_failure:
  "write_loop f pt pvt h l s pre = (Awaiting_Write, pvt1, pkts1) \<Longrightarrow> ret < 0 \<Longrightarrow>
   \<exists>pkt pvt2. write_loop f pt pvt h l s (pre @ ret # rest) = (Returned (- 1), pvt2, pkts1 @ [pkt]) \<and>
      pkt_ret pkt = ret \<and>
      pkt_seqno pkt = rtp_seqno pvt1 \<and> rtp_seqno pvt2 = rtp_seqno pvt1 + 1 \<and>
      pkt_timestamp pkt = rtp_timestamp pvt1 \<and>
      (s = length_samples f l \<longrightarrow>
         rtp_timestamp pvt2 = rtp_timestamp pvt1 + word_of_int (timestamp_advance f pkt))"
proof (induction pre arbitrary: pvt h l s pkts1)
  case Nil
  then have h: "h < datalen f" and e: "pvt1 = pvt" "pkts1 = []"
    by (auto split: if_splits)
  show ?case
    using h e Nil.prems(2) step_advance [where s = s and l = l and f = f and pt = pt and pvt = pvt and h = h and ret = ret]
    by (auto simp: write_loop_Cons step_packet_simps step_pvt_simps)
next
  case (Cons a pre)
  from Cons.prems(1) have h: "h < datalen f" and a: "0 \<le> a"
    by (auto simp: write_loop_Cons split: if_splits)
  let ?pkt = "step_packet f pt pvt h l a"
  let ?pvt2 = "step_pvt f pt pvt h l s"
  obtain r1 p1 pkts2 where rec:
    "write_loop f pt ?pvt2 (h + step_length f h l)
       (step_length f h l) (step_samples f h l s) pre = (r1, p1, pkts2)"
    by (metis prod_cases3)
  with Cons.prems(1) h a have eq: "r1 = Awaiting_Write" "p1 = pvt1" "pkts1 = ?pkt # pkts2"
    by (simp_all add: write_loop_Cons)
  from Cons.IH [OF rec [unfolded eq(1,2)] Cons.prems(2)] obtain pk pv where ih:
    "write_loop f pt ?pvt2 (h + step_length f h l) (step_length f h l) (step_samples f h l s)
       (pre @ ret # rest) = (Returned (- 1), pv, pkts2 @ [pk])"
    "pkt_ret pk = ret" "pkt_seqno pk = rtp_seqno pvt1" "rtp_seqno pv = rtp_seqno pvt1 + 1"
    "pkt_timestamp pk = rtp_timestamp pvt1"
    "step_samples f h l s = length_samples f (step_length f h l) \<longrightarrow>
       rtp_timestamp pv = rtp_timestamp pvt1 + word_of_int (timestamp_advance f pk)"
    by blast
  have "write_loop f pt pvt h l s ((a # pre) @ ret # rest) = (Returned (- 1), pv, pkts1 @ [pk])"
    using h a ih(1) eq(3) by (simp add: write_loop_Cons)
  with ih(2-6) step_samples_inv [where s = s and l = l and f = f and h = h] show ?case by blast
qed

text \<open>
  The loop ends: when every chunk has a positive length and no \<^verbatim>\<open>write\<close> fails, it
  returns 0 after at most \<open>datalen f - h\<close> writes.
\<close>

lemma write_loop_returns:
  "0 < l \<Longrightarrow> \<forall>x \<in> set rets. 0 \<le> x \<Longrightarrow> nat (datalen f - h) \<le> length rets \<Longrightarrow>
   fst (write_loop f pt pvt h l s rets) = Returned 0"
proof (induction rets arbitrary: pvt h l s)
  case Nil
  then show ?case by simp
next
  case (Cons ret rets)
  show ?case
  proof (cases "h < datalen f")
    case False
    then show ?thesis by (simp add: write_loop_Cons)
  next
    case True
    have pos: "0 < step_length f h l" using True Cons.prems(1) by (simp add: step_length_def)
    have "nat (datalen f - (h + step_length f h l)) \<le> length rets"
      using pos Cons.prems(3) True by simp
    from Cons.IH [OF pos _ this] Cons.prems(2)
    have "fst (write_loop f pt (step_pvt f pt pvt h l s) (h + step_length f h l)
            (step_length f h l) (step_samples f h l s) rets) = Returned 0"
      by simp
    with True Cons.prems(2) show ?thesis
      by (auto simp: write_loop_Cons split: prod.splits)
  qed
qed

lemma write_enters_loop:
  assumes "ast_lantiq_write pvt f rets = (r, pvt', pkts)" "pkts \<noteq> [] \<or> r = Awaiting_Write"
  shows "write_loop f (rtp_payload pvt AND 127) pvt 0 (chunk_length pvt f)
           (length_samples f (chunk_length pvt f)) rets = (r, pvt', pkts)"
    and "subframes pvt f \<noteq> 0" and "datalen f \<noteq> 0"
  using assms by (auto simp: ast_lantiq_write_def Let_def split: if_splits)

lemma write_loop_nonempty_datalen:
  "write_loop f pt pvt 0 l s rets = (r, pvt', pkts) \<Longrightarrow> pkts \<noteq> [] \<or> r = Awaiting_Write \<Longrightarrow>
   0 < datalen f"
  by (cases rets) (auto simp: write_loop_Cons split: if_splits)

subsection \<open>Claims about the packetizer\<close>

lemma write_no_packets:
  "ast_lantiq_write pvt f rets = (r, pvt', []) \<Longrightarrow> pvt' = pvt"
proof (cases "r = Awaiting_Write")
  case True
  assume run: "ast_lantiq_write pvt f rets = (r, pvt', [])"
  from write_enters_loop(1) [OF run] True
  have "write_loop f (rtp_payload pvt AND 127) pvt 0 (chunk_length pvt f)
           (length_samples f (chunk_length pvt f)) rets = (r, pvt', [])" by simp
  then show ?thesis
    by (cases rets) (auto simp: write_loop_Cons split: if_splits prod.splits)
next
  case False
  assume run: "ast_lantiq_write pvt f rets = (r, pvt', [])"
  then show ?thesis
    by (cases rets)
       (auto simp: ast_lantiq_write_def Let_def write_loop_Cons split: if_splits prod.splits)
qed

lemma write_seqno:
  assumes run: "ast_lantiq_write pvt f rets = (r, pvt', pkts)"
  shows "rtp_seqno pvt' = rtp_seqno pvt + of_nat (length pkts)"
    and "i < length pkts \<Longrightarrow> pkt_seqno (pkts ! i) = rtp_seqno pvt + of_nat i"
proof -
  show "rtp_seqno pvt' = rtp_seqno pvt + of_nat (length pkts)"
  proof (cases "pkts = []")
    case True
    from write_no_packets [OF run [unfolded True]] True show ?thesis by simp
  next
    case False
    with write_enters_loop(1) [OF run] write_loop_seqno show ?thesis by blast
  qed
next
  assume i: "i < length pkts"
  then have "pkts \<noteq> []" by auto
  with write_enters_loop(1) [OF run] write_loop_seqno i show
    "pkt_seqno (pkts ! i) = rtp_seqno pvt + of_nat i" by blast
qed

lemma unat_succ16: "unat ((x::16 word) + 1) = (unat x + 1) mod 2 ^ 16"
  by (simp add: unat_word_ariths)

text \<open>
  C2. The packets that one call of \<^verbatim>\<open>ast_lantiq_write\<close> hands to \<^verbatim>\<open>write\<close> carry consecutive
  sequence numbers modulo \<open>2^16\<close>: the first packet carries the port's running sequence
  number, each further packet carries the number of the packet before it plus 1 modulo
  \<open>2^16\<close> (so 0 follows 65535), and the port's running number after the call is the
  number of the last packet plus 1 modulo \<open>2^16\<close>, which the first packet of the next
  frame then carries. A packet counts as emitted when it is handed to \<^verbatim>\<open>write\<close>; no other
  function of the driver assigns the sequence number.
\<close>

theorem seqno_increments_by_one:
  assumes run: "ast_lantiq_write pvt f rets = (r, pvt', pkts)"
  shows "(pkts \<noteq> [] \<longrightarrow> pkt_seqno (hd pkts) = rtp_seqno pvt) \<and>
         (\<forall>i. Suc i < length pkts \<longrightarrow>
            unat (pkt_seqno (pkts ! Suc i)) = (unat (pkt_seqno (pkts ! i)) + 1) mod 2 ^ 16) \<and>
         (\<forall>i. Suc i < length pkts \<longrightarrow> pkt_seqno (pkts ! i) = 65535 \<longrightarrow>
            pkt_seqno (pkts ! Suc i) = 0) \<and>
         (pkts \<noteq> [] \<longrightarrow> unat (rtp_seqno pvt') = (unat (pkt_seqno (last pkts)) + 1) mod 2 ^ 16) \<and>
         (pkts = [] \<longrightarrow> rtp_seqno pvt' = rtp_seqno pvt) \<and>
         (\<forall>f2 rets2 r2 pvt2 pkts2.
            ast_lantiq_write pvt' f2 rets2 = (r2, pvt2, pkts2) \<longrightarrow> pkts \<noteq> [] \<longrightarrow> pkts2 \<noteq> [] \<longrightarrow>
              unat (pkt_seqno (hd pkts2)) = (unat (pkt_seqno (last pkts)) + 1) mod 2 ^ 16)"
proof -
  note sq = write_seqno [OF run]
  have step: "pkt_seqno (pkts ! Suc i) = pkt_seqno (pkts ! i) + 1" if "Suc i < length pkts" for i
    using that sq(2) [of i] sq(2) [of "Suc i"] by simp
  have first: "pkt_seqno (hd pkts) = rtp_seqno pvt" if "pkts \<noteq> []"
    using that sq(2) [of 0] by (simp add: hd_conv_nth)
  have final: "rtp_seqno pvt' = pkt_seqno (last pkts) + 1" if "pkts \<noteq> []"
  proof -
    from that have "length pkts - 1 < length pkts" by simp
    from sq(2) [OF this] that have "pkt_seqno (last pkts) = rtp_seqno pvt + of_nat (length pkts - 1)"
      by (simp add: last_conv_nth)
    moreover from that have "length pkts = Suc (length pkts - 1)" by simp
    ultimately show ?thesis using sq(1) by (metis add.assoc of_nat_Suc add.commute)
  qed
  show ?thesis
  proof (intro conjI allI impI)
    show "pkts \<noteq> [] \<Longrightarrow> pkt_seqno (hd pkts) = rtp_seqno pvt" by (rule first)
    show "\<And>i. Suc i < length pkts \<Longrightarrow>
        unat (pkt_seqno (pkts ! Suc i)) = (unat (pkt_seqno (pkts ! i)) + 1) mod 2 ^ 16"
      using step by (simp add: unat_succ16)
    show "\<And>i. Suc i < length pkts \<Longrightarrow> pkt_seqno (pkts ! i) = 65535 \<Longrightarrow>
        pkt_seqno (pkts ! Suc i) = 0"
      by (simp add: step)
    show "pkts \<noteq> [] \<Longrightarrow> unat (rtp_seqno pvt') = (unat (pkt_seqno (last pkts)) + 1) mod 2 ^ 16"
      using final by (simp add: unat_succ16)
    show "pkts = [] \<Longrightarrow> rtp_seqno pvt' = rtp_seqno pvt"
      using sq(1) by simp
  next
    fix f2 rets2 r2 pvt2 pkts2
    assume run2: "ast_lantiq_write pvt' f2 rets2 = (r2, pvt2, pkts2)"
      and ne: "pkts \<noteq> []" "pkts2 \<noteq> []"
    from write_seqno(2) [OF run2, of 0] ne(2) have "pkt_seqno (hd pkts2) = rtp_seqno pvt'"
      by (simp add: hd_conv_nth)
    with final [OF ne(1)]
    show "unat (pkt_seqno (hd pkts2)) = (unat (pkt_seqno (last pkts)) + 1) mod 2 ^ 16"
      by (simp add: unat_succ16)
  qed
qed

lemmas write_eval =
  ast_lantiq_write_def subframes_def subframes_rtp_def chunk_length_def c_div_def Let_def
  int32_def length_samples_def
  write_loop.simps(2) RTP_BUFFER_LEN_def RTP_HEADER_LEN_def
  port_in_call_def lantiq_conf_enc_def lantiq_create_pvt_def lantiq_init_pvt_def
  slin16_frame_def g722_frame_def
  RTP_G722_def RTP_SLIN16_def

lemma slin16_run:
  "ast_lantiq_write (port_in_call AST_FORMAT_SLINEAR16) slin16_frame [332, 332] =
     (Returned 0,
      (port_in_call AST_FORMAT_SLINEAR16)\<lparr>rtp_seqno := 1, rtp_timestamp := 1320\<rparr>,
      [\<lparr>pkt_payload_type = 104, pkt_seqno = 65535, pkt_timestamp = 1000,
        pkt_offset = 0, pkt_length = 320, pkt_ret = 332\<rparr>,
       \<lparr>pkt_payload_type = 104, pkt_seqno = 0, pkt_timestamp = 1160,
        pkt_offset = 320, pkt_length = 320, pkt_ret = 332\<rparr>])"
  by (simp add: write_eval)

theorem seqno_increments_by_one_witness:
  "(case ast_lantiq_write (port_in_call AST_FORMAT_SLINEAR16) slin16_frame [332, 332] of
      (r, pvt', pkts) \<Rightarrow>
        r = Returned 0 \<and> map pkt_seqno pkts = [65535, 0] \<and>
        unat (pkt_seqno (pkts ! 1)) = (unat (pkt_seqno (pkts ! 0)) + 1) mod 2 ^ 16 \<and>
        rtp_seqno pvt' = 1)"
  using seqno_increments_by_one [OF slin16_run] by (simp add: slin16_run)

lemma write_any_results:
  assumes "ast_lantiq_write pvt f rets = (r, pvt', pkts)" "pkts \<noteq> [] \<or> r = Awaiting_Write"
  shows "ast_lantiq_write pvt f rets2 =
           write_loop f (rtp_payload pvt AND 127) pvt 0 (chunk_length pvt f)
             (length_samples f (chunk_length pvt f)) rets2"
  using assms by (auto simp: ast_lantiq_write_def Let_def split: if_splits)



lemma write_timestamp:
  assumes run: "ast_lantiq_write pvt f rets = (r, pvt', pkts)"
  shows "pkts \<noteq> [] \<Longrightarrow> pkt_timestamp (hd pkts) = rtp_timestamp pvt"
    and "i < length pkts \<Longrightarrow>
      pkt_timestamp (pkts ! i) + word_of_int (timestamp_advance f (pkts ! i)) =
        (if Suc i < length pkts then pkt_timestamp (pkts ! Suc i) else rtp_timestamp pvt')"
proof -
  assume "pkts \<noteq> []"
  with write_enters_loop(1) [OF run] write_loop_timestamp
  show "pkt_timestamp (hd pkts) = rtp_timestamp pvt" by blast
next
  assume i: "i < length pkts"
  then have "pkts \<noteq> []" by auto
  with write_enters_loop(1) [OF run] have
    "write_loop f (rtp_payload pvt AND 127) pvt 0 (chunk_length pvt f)
       (length_samples f (chunk_length pvt f)) rets = (r, pvt', pkts)" by simp
  from write_loop_timestamp [OF this refl] i show
    "pkt_timestamp (pkts ! i) + word_of_int (timestamp_advance f (pkts ! i)) =
        (if Suc i < length pkts then pkt_timestamp (pkts ! Suc i) else rtp_timestamp pvt')"
    by blast
qed

lemma write_payload_type:
  assumes run: "ast_lantiq_write pvt f rets = (r, pvt', pkts)" and p: "p \<in> set pkts"
  shows "pkt_payload_type p = rtp_payload pvt AND 127"
proof -
  from p have "pkts \<noteq> []" by auto
  with write_enters_loop(1) [OF run] write_loop_payload_type p show ?thesis by blast
qed

lemma enc_params_G722:
  "enc_params format = Some (pt, payload) \<Longrightarrow>
     (payload AND 127 = RTP_G722) = (format = AST_FORMAT_G722)"
  by (cases format)
     (auto simp: RTP_PCMU_def RTP_G723_63_def RTP_PCMA_def RTP_G722_def RTP_G729_def
        RTP_G726_def RTP_ILBC_def RTP_SLIN8_def RTP_SLIN16_def RTP_SIREN7_def)

lemma write_packets_upper:
  assumes run: "ast_lantiq_write pvt f rets = (r, pvt', pkts)" and p: "p \<in> set pkts"
  shows "pkt_length p \<le> 500" and "0 < datalen f" and "subframes pvt f \<noteq> 0"
proof -
  from p have ne: "pkts \<noteq> []" by auto
  note loop = write_enters_loop(1) [OF run disjI1 [OF ne]]
  show d: "0 < datalen f" using write_loop_nonempty_datalen [OF loop] ne by simp
  show s: "subframes pvt f \<noteq> 0" using write_enters_loop(2) [OF run] ne by simp
  from write_loop_length_upper [OF loop chunk_length_le_500 [OF d s] p]
  show "pkt_length p \<le> 500" .
qed

lemma write_packets_in_range:
  assumes run: "ast_lantiq_write pvt f rets = (r, pvt', pkts)" and p: "p \<in> set pkts"
    and fit: "in32 (500 * subframes pvt f)"
  shows "0 \<le> pkt_length p \<and> pkt_length p \<le> 500 \<and>
         0 \<le> pkt_offset p \<and> pkt_offset p + pkt_length p \<le> datalen f"
proof -
  from p have ne: "pkts \<noteq> []" by auto
  note loop = write_enters_loop(1) [OF run disjI1 [OF ne]]
  note cb = chunk_length_bounds [OF fit write_packets_upper(2,3) [OF run p]]
  from write_loop_length [OF loop _ _ _ p] cb show ?thesis by simp
qed

lemma product_fits: "0 \<le> l \<Longrightarrow> l \<le> 500 \<Longrightarrow> \<bar>n\<bar> \<le> 4294967 \<Longrightarrow> in32 (l * n)"
proof -
  assume l: "0 \<le> l" "l \<le> 500" and n: "\<bar>n\<bar> \<le> 4294967"
  have "\<bar>l * n\<bar> = l * \<bar>n\<bar>" using l by (simp add: abs_mult)
  also have "\<dots> \<le> 500 * 4294967" using l n by (intro mult_mono) simp_all
  finally have "\<bar>l * n\<bar> \<le> 2147483500" by simp
  then have "- 2147483648 \<le> l * n \<and> l * n < 2147483648" by arith
  then show ?thesis by (simp add: in32_def)
qed

text \<open>
  C3. After each packet the RTP timestamp has advanced by the number of media samples
  of the packet's chunk (\<open>chunk_samples\<close>, the value the loop computes in 32-bit \<^verbatim>\<open>int\<close>),
  or by half of it (C division) when the payload type in the header is \<^verbatim>\<open>RTP_G722\<close> (9): the
  next packet, or the port after the last packet, carries the packet's timestamp plus
  that amount modulo \<open>2^32\<close>. The header carries the port's payload type, and for a port
  configured by \<^verbatim>\<open>lantiq_conf_enc\<close> that is \<^verbatim>\<open>RTP_G722\<close> for the format G722 only, so no
  other format, SIREN7 included, gets the halved advance. The computed number of samples
  is the chunk's share \<^verbatim>\<open>length * samples / datalen\<close> of the frame's samples whenever that
  product fits a 32-bit \<^verbatim>\<open>int\<close>; it does for every packet when \<open>500 * subframes\<close> fits and
  the frame has at most 4294967 samples. Beyond that the product wraps.
\<close>

theorem timestamp_advance_per_chunk:
  assumes run: "ast_lantiq_write pvt f rets = (r, pvt', pkts)"
  shows "(pkts \<noteq> [] \<longrightarrow> pkt_timestamp (hd pkts) = rtp_timestamp pvt) \<and>
         (\<forall>i < length pkts.
            (if Suc i < length pkts then pkt_timestamp (pkts ! Suc i) else rtp_timestamp pvt') =
              pkt_timestamp (pkts ! i) +
                word_of_int (if pkt_payload_type (pkts ! i) = RTP_G722
                             then c_div (chunk_samples f (pkts ! i)) 2
                             else chunk_samples f (pkts ! i))) \<and>
         (\<forall>p \<in> set pkts. pkt_payload_type p = rtp_payload pvt AND 127) \<and>
         (enc_params (codec pvt) = Some (ptime pvt, rtp_payload pvt) \<longrightarrow>
            (\<forall>p \<in> set pkts. (pkt_payload_type p = RTP_G722) = (codec pvt = AST_FORMAT_G722))) \<and>
         (\<forall>p \<in> set pkts. in32 (pkt_length p * samples f) \<longrightarrow>
            chunk_samples f p = c_div (pkt_length p * samples f) (datalen f)) \<and>
         (in32 (500 * subframes pvt f) \<longrightarrow> \<bar>samples f\<bar> \<le> 4294967 \<longrightarrow>
            (\<forall>p \<in> set pkts. chunk_samples f p = c_div (pkt_length p * samples f) (datalen f)))"
proof (intro conjI allI impI ballI)
  show "pkts \<noteq> [] \<Longrightarrow> pkt_timestamp (hd pkts) = rtp_timestamp pvt"
    by (rule write_timestamp(1) [OF run])
next
  fix i assume "i < length pkts"
  from write_timestamp(2) [OF run this]
  show "(if Suc i < length pkts then pkt_timestamp (pkts ! Suc i) else rtp_timestamp pvt') =
      pkt_timestamp (pkts ! i) +
        word_of_int (if pkt_payload_type (pkts ! i) = RTP_G722
                     then c_div (chunk_samples f (pkts ! i)) 2
                     else chunk_samples f (pkts ! i))"
    by (simp add: timestamp_advance_def)
next
  fix p assume "p \<in> set pkts"
  then show "pkt_payload_type p = rtp_payload pvt AND 127"
    by (rule write_payload_type [OF run])
next
  fix p assume "enc_params (codec pvt) = Some (ptime pvt, rtp_payload pvt)" "p \<in> set pkts"
  then show "(pkt_payload_type p = RTP_G722) = (codec pvt = AST_FORMAT_G722)"
    using write_payload_type [OF run] enc_params_G722 by simp
next
  fix p assume p: "p \<in> set pkts" and fit: "in32 (pkt_length p * samples f)"
  from length_samples_exact [OF fit write_packets_upper(2) [OF run p]]
  show "chunk_samples f p = c_div (pkt_length p * samples f) (datalen f)"
    by (simp add: chunk_samples_def)
next
  fix p assume fit: "in32 (500 * subframes pvt f)" and n: "\<bar>samples f\<bar> \<le> 4294967"
    and p: "p \<in> set pkts"
  from write_packets_in_range [OF run p fit] n have "in32 (pkt_length p * samples f)"
    by (simp add: product_fits)
  from length_samples_exact [OF this write_packets_upper(2) [OF run p]]
  show "chunk_samples f p = c_div (pkt_length p * samples f) (datalen f)"
    by (simp add: chunk_samples_def)
qed

lemma g722_run:
  "ast_lantiq_write (port_in_call AST_FORMAT_G722) g722_frame [172] =
     (Returned 0,
      (port_in_call AST_FORMAT_G722)\<lparr>rtp_seqno := 0, rtp_timestamp := 1160\<rparr>,
      [\<lparr>pkt_payload_type = 9, pkt_seqno = 65535, pkt_timestamp = 1000,
        pkt_offset = 0, pkt_length = 160, pkt_ret = 172\<rparr>])"
  by (simp add: write_eval)

theorem timestamp_advance_per_chunk_witness:
  "(case ast_lantiq_write (port_in_call AST_FORMAT_G722) g722_frame [172] of
      (r, pvt', pkts) \<Rightarrow>
        r = Returned 0 \<and> map (chunk_samples g722_frame) pkts = [320] \<and>
        map pkt_payload_type pkts = [RTP_G722] \<and>
        rtp_timestamp pvt' = pkt_timestamp (pkts ! 0) + 160 \<and>
        in32 (pkt_length (pkts ! 0) * samples g722_frame) \<and>
        c_div (pkt_length (pkts ! 0) * samples g722_frame) (datalen g722_frame) = 320 \<and>
        codec (port_in_call AST_FORMAT_G722) = AST_FORMAT_G722)"
proof -
  have "codec (port_in_call AST_FORMAT_G722) = AST_FORMAT_G722"
    by (simp add: port_in_call_def lantiq_conf_enc_def)
  then show ?thesis
    using timestamp_advance_per_chunk [OF g722_run] unfolding g722_run
    by (simp add: chunk_samples_def length_samples_def int32_def in32_def g722_frame_def
          c_div_def RTP_G722_def)
qed

text \<open>
  Beyond that range the advance is not the number of samples of the chunk. A frame of 160
  bytes that declares 20000000 samples goes out as one packet that carries all of it; the
  product \<open>160 * 20000000\<close> wraps, and the timestamp moves from 1000 to 4288124751 (back by
  6843545) instead of to 20001000.
\<close>

theorem timestamp_advance_wraps:
  "ast_lantiq_write (port_in_call AST_FORMAT_ULAW) dense_frame [172] =
     (Returned 0,
      (port_in_call AST_FORMAT_ULAW)\<lparr>rtp_seqno := 0, rtp_timestamp := 4288124751\<rparr>,
      [\<lparr>pkt_payload_type = 0, pkt_seqno = 65535, pkt_timestamp = 1000,
        pkt_offset = 0, pkt_length = 160, pkt_ret = 172\<rparr>]) \<and>
   c_div (160 * samples dense_frame) (datalen dense_frame) = 20000000 \<and>
   (1000 :: 32 word) + word_of_int 20000000 = 20001000 \<and>
   (4288124751 :: 32 word) \<noteq> 20001000 \<and>
   (4288124751 :: 32 word) = 1000 + word_of_int (- 6843545)"
  by (simp add: write_eval dense_frame_def RTP_PCMU_def)




text \<open>
  C10. When the loop has reached a further \<^verbatim>\<open>write\<close> (the call is still in the loop after
  the results \<open>pre\<close>) and that \<^verbatim>\<open>write\<close> returns a negative value, \<^verbatim>\<open>ast_lantiq_write\<close>
  returns -1; the failed packet is the last one handed to \<^verbatim>\<open>write\<close>, whatever results
  would have followed; and the port's sequence number and timestamp have been advanced
  for the failed packet as for any other.
\<close>

theorem failed_write_not_atomic:
  assumes pre: "ast_lantiq_write pvt f pre = (Awaiting_Write, pvt1, pkts1)" and neg: "ret < 0"
  shows "\<exists>pkt pvt2.
           ast_lantiq_write pvt f (pre @ ret # rest) = (Returned (- 1), pvt2, pkts1 @ [pkt]) \<and>
           pkt_ret pkt = ret \<and>
           pkt_seqno pkt = rtp_seqno pvt1 \<and>
           rtp_seqno pvt2 = rtp_seqno pvt1 + 1 \<and> rtp_seqno pvt2 \<noteq> rtp_seqno pvt1 \<and>
           pkt_timestamp pkt = rtp_timestamp pvt1 \<and>
           rtp_timestamp pvt2 = rtp_timestamp pvt1 + word_of_int (timestamp_advance f pkt)"
proof -
  note loop = write_enters_loop(1) [OF pre disjI2 [OF refl]]
  from write_loop_failure [OF loop neg, of rest] obtain pkt pvt2 where f:
    "write_loop f (rtp_payload pvt AND 127) pvt 0 (chunk_length pvt f)
       (length_samples f (chunk_length pvt f)) (pre @ ret # rest) =
     (Returned (- 1), pvt2, pkts1 @ [pkt])"
    "pkt_ret pkt = ret" "pkt_seqno pkt = rtp_seqno pvt1" "rtp_seqno pvt2 = rtp_seqno pvt1 + 1"
    "pkt_timestamp pkt = rtp_timestamp pvt1"
    "rtp_timestamp pvt2 = rtp_timestamp pvt1 + word_of_int (timestamp_advance f pkt)"
    by blast
  have "ast_lantiq_write pvt f (pre @ ret # rest) = (Returned (- 1), pvt2, pkts1 @ [pkt])"
    using write_any_results [OF pre disjI2 [OF refl]] f(1) by simp
  moreover have "rtp_seqno pvt2 \<noteq> rtp_seqno pvt1" using f(4) by simp
  ultimately show ?thesis using f(2-6) by blast
qed

lemma slin16_awaiting:
  "ast_lantiq_write (port_in_call AST_FORMAT_SLINEAR16) slin16_frame [332] =
     (Awaiting_Write,
      (port_in_call AST_FORMAT_SLINEAR16)\<lparr>rtp_seqno := 0, rtp_timestamp := 1160\<rparr>,
      [\<lparr>pkt_payload_type = 104, pkt_seqno = 65535, pkt_timestamp = 1000,
        pkt_offset = 0, pkt_length = 320, pkt_ret = 332\<rparr>])"
  by (simp add: write_eval)

theorem failed_write_not_atomic_witness:
  "(case ast_lantiq_write (port_in_call AST_FORMAT_SLINEAR16) slin16_frame [332, - 1, 332] of
      (r, pvt', pkts) \<Rightarrow>
        r = Returned (- 1) \<and> map pkt_ret pkts = [332, - 1] \<and>
        map pkt_seqno pkts = [65535, 0] \<and> rtp_seqno pvt' = 1 \<and>
        map pkt_timestamp pkts = [1000, 1160] \<and> rtp_timestamp pvt' = 1320)"
  using failed_write_not_atomic [OF slin16_awaiting, of "- 1" "[332]"]
  by (simp add: write_eval)

subsection \<open>Claims about call origination and device state\<close>

lemma in_use_test:
  "(c_eq (c_not (enum_val st)) 0 \<noteq> 0) = (st \<noteq> ONHOOK)"
  "(c_eq (c_not (enum_val st)) 0 = 0) = (st = ONHOOK)"
  by (cases st; simp add: c_eq_def c_not_def)+

lemma lantiq_ring_no_control:
  "lantiq_ring c r cid name = Inr a \<Longrightarrow> ast_queue_control ch ctl \<notin> set a"
  by (auto simp: lantiq_ring_def split: option.splits if_splits)

lemma lantiq_ring_returns:
  "(\<exists>a. lantiq_ring c r cid name = Inr a) = (r = 0 \<or> cid = None \<or> name \<noteq> None)"
  by (auto simp: lantiq_ring_def split: option.splits)

lemma lantiq_channel_keeps:
  assumes "lantiq_channel e st c ext ctx format pvt = (ch, pvt1, a)"
  shows "channel_state pvt1 = channel_state pvt"
    and "dtmfbuf pvt1 = dtmfbuf pvt" and "dtmfbuf_len pvt1 = dtmfbuf_len pvt"
    and "dial_timer pvt1 = dial_timer pvt" and "port_id pvt1 = port_id pvt"
  using assms
  by (auto simp: lantiq_channel_def lantiq_conf_enc_def Let_def
        split: option.splits if_splits prod.splits)

lemma map_update_same: "k < length xs \<Longrightarrow> f y = f (xs ! k) \<Longrightarrow> map f (xs[k := y]) = map f xs"
  by (simp add: map_update list_update_same_conv)

lemma lantiq_channel_no_control:
  "lantiq_channel e st c ext ctx format pvt = (ch, pvt1, a) \<Longrightarrow> ast_queue_control ch' ctl \<notin> set a"
  by (auto simp: lantiq_channel_def lantiq_conf_enc_def Let_def
        split: option.splits if_splits prod.splits)

lemma lantiq_channel_none:
  "(fst (lantiq_channel e st c ext ctx format pvt) = None) =
     (channel_alloc e = None \<or> (format \<noteq> AST_FORMAT_NONE \<and> enc_params format = None))"
  by (auto simp: lantiq_channel_def lantiq_conf_enc_def Let_def
        split: option.splits if_splits prod.splits)

text \<open>
  C1. Whenever \<^verbatim>\<open>ast_lantiq_call\<close> returns, it has rejected the call (result -1, the busy
  control frame queued to the call leg) exactly when the port is not \<open>ONHOOK\<close>; a rejection
  leaves the port as it was; otherwise the call is accepted (result 0), the port becomes
  \<open>RINGING\<close> and the ringing control frame is queued. It returns whenever the port is not
  \<open>ONHOOK\<close>, or the call leg carries no caller number, or it carries a caller name.
  \<^verbatim>\<open>ast_lantiq_requester\<close>, for a destination that names one of the ports, refuses a port
  that is not \<open>ONHOOK\<close> by returning \<^verbatim>\<open>NULL\<close> and nothing else: nothing is allocated, the
  table is untouched, \<^verbatim>\<open>*cause\<close> is not set and no control frame is queued (the test
  \<^verbatim>\<open>! pvt->channel_state == ONHOOK\<close> of the source is true exactly then). For a port that
  is \<open>ONHOOK\<close> it returns what \<^verbatim>\<open>lantiq_channel\<close> returns, which is \<^verbatim>\<open>NULL\<close> too when no call
  leg can be allocated or the encoder cannot be set to the requested format. It never
  sets \<^verbatim>\<open>*cause\<close>, queues no control frame and never changes the state of a port: a port
  becomes \<open>RINGING\<close> in \<^verbatim>\<open>ast_lantiq_call\<close> only.
\<close>

theorem origination_busy_iff_not_idle:
  "(\<forall>res pvt' acts.
      ast_lantiq_call ast pvt = Inr (res, pvt', acts) \<longrightarrow>
        (res = - 1) = (channel_state pvt \<noteq> ONHOOK) \<and>
        (ast_queue_control (chan_ptr ast) AST_CONTROL_BUSY \<in> set acts) =
          (channel_state pvt \<noteq> ONHOOK) \<and>
        (channel_state pvt \<noteq> ONHOOK \<longrightarrow> pvt' = pvt) \<and>
        (channel_state pvt = ONHOOK \<longrightarrow>
           res = 0 \<and> pvt' = pvt\<lparr>channel_state := RINGING\<rparr> \<and>
           ast_queue_control (chan_ptr ast) AST_CONTROL_RINGING \<in> set acts)) \<and>
   (channel_state pvt \<noteq> ONHOOK \<or>
    (if connected_number_valid ast then connected_number_str ast else None) = None \<or>
    (if connected_name_valid ast then connected_name_str ast else None) \<noteq> None \<longrightarrow>
      (\<exists>res pvt' acts. ast_lantiq_call ast pvt = Inr (res, pvt', acts))) \<and>
   (int (length iflist) = channels dev_ctx \<longrightarrow> data \<noteq> [] \<longrightarrow>
    1 \<le> atoi data \<longrightarrow> atoi data \<le> channels dev_ctx \<longrightarrow>
      (case ast_lantiq_requester dev_ctx e format data iflist of
         (chan, cause, iflist', acts) \<Rightarrow>
           (channel_state (iflist ! nat (atoi data - 1)) \<noteq> ONHOOK \<longrightarrow>
              chan = None \<and> iflist' = iflist \<and> acts = []) \<and>
           (channel_state (iflist ! nat (atoi data - 1)) = ONHOOK \<longrightarrow>
              (chan, iflist' ! nat (atoi data - 1), acts) =
                lantiq_channel e AST_STATE_DOWN (atoi data - 1) None None format
                  (iflist ! nat (atoi data - 1))) \<and>
           (chan = None) =
              (channel_state (iflist ! nat (atoi data - 1)) \<noteq> ONHOOK \<or>
               channel_alloc e = None \<or>
               (format \<noteq> AST_FORMAT_NONE \<and> enc_params format = None)) \<and>
           cause = None \<and> (\<forall>ch ctl. ast_queue_control ch ctl \<notin> set acts) \<and>
           map channel_state iflist' = map channel_state iflist))"
proof -
  have call: "\<forall>res pvt' acts.
      ast_lantiq_call ast pvt = Inr (res, pvt', acts) \<longrightarrow>
        (res = - 1) = (channel_state pvt \<noteq> ONHOOK) \<and>
        (ast_queue_control (chan_ptr ast) AST_CONTROL_BUSY \<in> set acts) =
          (channel_state pvt \<noteq> ONHOOK) \<and>
        (channel_state pvt \<noteq> ONHOOK \<longrightarrow> pvt' = pvt) \<and>
        (channel_state pvt = ONHOOK \<longrightarrow>
           res = 0 \<and> pvt' = pvt\<lparr>channel_state := RINGING\<rparr> \<and>
           ast_queue_control (chan_ptr ast) AST_CONTROL_RINGING \<in> set acts)"
  proof (rule allI, rule allI, rule allI, rule impI)
    fix res pvt' acts
    assume r: "ast_lantiq_call ast pvt = Inr (res, pvt', acts)"
    show "(res = - 1) = (channel_state pvt \<noteq> ONHOOK) \<and>
          (ast_queue_control (chan_ptr ast) AST_CONTROL_BUSY \<in> set acts) =
            (channel_state pvt \<noteq> ONHOOK) \<and>
          (channel_state pvt \<noteq> ONHOOK \<longrightarrow> pvt' = pvt) \<and>
          (channel_state pvt = ONHOOK \<longrightarrow>
             res = 0 \<and> pvt' = pvt\<lparr>channel_state := RINGING\<rparr> \<and>
             ast_queue_control (chan_ptr ast) AST_CONTROL_RINGING \<in> set acts)"
    proof (cases "channel_state pvt = ONHOOK")
      case True
      with r obtain a where
        a: "lantiq_ring (port_id pvt) 1
              (if connected_number_valid ast then connected_number_str ast else None)
              (if connected_name_valid ast then connected_name_str ast else None) = Inr a"
        and res: "res = 0" "pvt' = pvt\<lparr>channel_state := RINGING\<rparr>"
          "acts = a @ [ast_setstate (chan_ptr ast) AST_STATE_RINGING,
                       ast_queue_control (chan_ptr ast) AST_CONTROL_RINGING]"
        by (auto simp: ast_lantiq_call_def Let_def split: sum.splits)
      from lantiq_ring_no_control [OF a] res True show ?thesis by simp
    next
      case False
      with r show ?thesis by (auto simp: ast_lantiq_call_def)
    qed
  qed
  have returns: "channel_state pvt \<noteq> ONHOOK \<or>
    (if connected_number_valid ast then connected_number_str ast else None) = None \<or>
    (if connected_name_valid ast then connected_name_str ast else None) \<noteq> None \<longrightarrow>
      (\<exists>res pvt' acts. ast_lantiq_call ast pvt = Inr (res, pvt', acts))"
  proof (rule impI)
    assume c: "channel_state pvt \<noteq> ONHOOK \<or>
      (if connected_number_valid ast then connected_number_str ast else None) = None \<or>
      (if connected_name_valid ast then connected_name_str ast else None) \<noteq> None"
    show "\<exists>res pvt' acts. ast_lantiq_call ast pvt = Inr (res, pvt', acts)"
    proof (cases "channel_state pvt = ONHOOK")
      case True
      with c lantiq_ring_returns [of "port_id pvt" 1
          "if connected_number_valid ast then connected_number_str ast else None"
          "if connected_name_valid ast then connected_name_str ast else None"]
      obtain a where "lantiq_ring (port_id pvt) 1
              (if connected_number_valid ast then connected_number_str ast else None)
              (if connected_name_valid ast then connected_name_str ast else None) = Inr a"
        by blast
      with True show ?thesis by (simp add: ast_lantiq_call_def Let_def)
    next
      case False
      then show ?thesis by (simp add: ast_lantiq_call_def)
    qed
  qed
  have request: "int (length iflist) = channels dev_ctx \<longrightarrow> data \<noteq> [] \<longrightarrow>
    1 \<le> atoi data \<longrightarrow> atoi data \<le> channels dev_ctx \<longrightarrow>
      (case ast_lantiq_requester dev_ctx e format data iflist of
         (chan, cause, iflist', acts) \<Rightarrow>
           (channel_state (iflist ! nat (atoi data - 1)) \<noteq> ONHOOK \<longrightarrow>
              chan = None \<and> iflist' = iflist \<and> acts = []) \<and>
           (channel_state (iflist ! nat (atoi data - 1)) = ONHOOK \<longrightarrow>
              (chan, iflist' ! nat (atoi data - 1), acts) =
                lantiq_channel e AST_STATE_DOWN (atoi data - 1) None None format
                  (iflist ! nat (atoi data - 1))) \<and>
           (chan = None) =
              (channel_state (iflist ! nat (atoi data - 1)) \<noteq> ONHOOK \<or>
               channel_alloc e = None \<or>
               (format \<noteq> AST_FORMAT_NONE \<and> enc_params format = None)) \<and>
           cause = None \<and> (\<forall>ch ctl. ast_queue_control ch ctl \<notin> set acts) \<and>
           map channel_state iflist' = map channel_state iflist)"
  proof (intro impI)
    assume table: "int (length iflist) = channels dev_ctx" and data: "data \<noteq> []"
      and lo: "1 \<le> atoi data" and hi: "atoi data \<le> channels dev_ctx"
    let ?k = "nat (atoi data - 1)"
    let ?pvt = "iflist ! ?k"
    have k: "?k < length iflist" using table lo hi by linarith
    obtain ch pvt1 a where lc:
      "lantiq_channel e AST_STATE_DOWN (atoi data - 1) None None format ?pvt = (ch, pvt1, a)"
      by (metis prod_cases3)
    have req: "ast_lantiq_requester dev_ctx e format data iflist =
        (if channel_state ?pvt \<noteq> ONHOOK then (None, None, iflist, [])
         else (ch, None, iflist[?k := pvt1], a))"
      using data lo hi lc by (simp add: ast_lantiq_requester_def Let_def in_use_test)
    have st: "map channel_state (iflist[?k := pvt1]) = map channel_state iflist"
      using k lantiq_channel_keeps(1) [OF lc] by (simp add: map_update_same)
    have nc: "\<forall>ch' ctl. ast_queue_control ch' ctl \<notin> set a"
      using lantiq_channel_no_control [OF lc] by simp
    have none: "(ch = None) =
        (channel_alloc e = None \<or> (format \<noteq> AST_FORMAT_NONE \<and> enc_params format = None))"
      using lantiq_channel_none [of e AST_STATE_DOWN "atoi data - 1" None None format ?pvt] lc
      by simp
    show "case ast_lantiq_requester dev_ctx e format data iflist of
           (chan, cause, iflist', acts) \<Rightarrow>
             (channel_state ?pvt \<noteq> ONHOOK \<longrightarrow> chan = None \<and> iflist' = iflist \<and> acts = []) \<and>
             (channel_state ?pvt = ONHOOK \<longrightarrow>
                (chan, iflist' ! ?k, acts) =
                  lantiq_channel e AST_STATE_DOWN (atoi data - 1) None None format ?pvt) \<and>
             (chan = None) =
                (channel_state ?pvt \<noteq> ONHOOK \<or> channel_alloc e = None \<or>
                 (format \<noteq> AST_FORMAT_NONE \<and> enc_params format = None)) \<and>
             cause = None \<and> (\<forall>ch ctl. ast_queue_control ch ctl \<notin> set acts) \<and>
             map channel_state iflist' = map channel_state iflist"
      using k lc st nc none by (simp add: req)
  qed
  show ?thesis by (rule conjI [OF call conjI [OF returns request]])
qed

lemmas atoi_eval = atoi_def isspace_def isdigit_def

lemmas port_eval =
  idle_port_def lantiq_create_pvt_def lantiq_init_pvt_def two_ports_def quiet_env_def NUL_def

theorem origination_busy_iff_not_idle_witness:
  "ast_lantiq_call \<lparr>chan_ptr = 7, connected_number_valid = True,
                    connected_number_str = Some ''5551234'', connected_name_valid = True,
                    connected_name_str = Some ''Alice''\<rparr> (idle_port 0) =
     Inr (0, (idle_port 0)\<lparr>channel_state := RINGING\<rparr>,
          [led_blink 0 100, IFX_TAPI_CID_TX_SEQ_START 0 ''5551234'' ''Alice'',
           ast_setstate 7 AST_STATE_RINGING, ast_queue_control 7 AST_CONTROL_RINGING]) \<and>
   ast_lantiq_call \<lparr>chan_ptr = 7, connected_number_valid = False, connected_number_str = None,
                    connected_name_valid = False, connected_name_str = None\<rparr> (idle_port 0) =
     Inr (0, (idle_port 0)\<lparr>channel_state := RINGING\<rparr>,
          [led_blink 0 100, IFX_TAPI_RING_START 0, ast_setstate 7 AST_STATE_RINGING,
           ast_queue_control 7 AST_CONTROL_RINGING]) \<and>
   ast_lantiq_call \<lparr>chan_ptr = 7, connected_number_valid = True,
                    connected_number_str = Some ''5551234'', connected_name_valid = True,
                    connected_name_str = Some ''Alice''\<rparr>
       ((idle_port 0)\<lparr>channel_state := OFFHOOK\<rparr>) =
     Inr (- 1, (idle_port 0)\<lparr>channel_state := OFFHOOK\<rparr>,
          [ast_setstate 7 AST_STATE_BUSY, ast_queue_control 7 AST_CONTROL_BUSY]) \<and>
   ast_lantiq_requester two_ports quiet_env AST_FORMAT_ALAW ''1''
       [idle_port 0, (idle_port 1)\<lparr>channel_state := OFFHOOK\<rparr>] =
     (fst (lantiq_channel quiet_env AST_STATE_DOWN 0 None None AST_FORMAT_ALAW (idle_port 0)),
      None,
      [fst (snd (lantiq_channel quiet_env AST_STATE_DOWN 0 None None AST_FORMAT_ALAW
                   (idle_port 0))),
       (idle_port 1)\<lparr>channel_state := OFFHOOK\<rparr>],
      snd (snd (lantiq_channel quiet_env AST_STATE_DOWN 0 None None AST_FORMAT_ALAW
                  (idle_port 0)))) \<and>
   fst (lantiq_channel quiet_env AST_STATE_DOWN 0 None None AST_FORMAT_ALAW (idle_port 0)) =
     Some 7 \<and>
   int (length [idle_port 0, (idle_port 1)\<lparr>channel_state := OFFHOOK\<rparr>]) = channels two_ports \<and>
   atoi ''1'' = 1"
  using origination_busy_iff_not_idle
          [where ast = "\<lparr>chan_ptr = 7, connected_number_valid = True,
                connected_number_str = Some ''5551234'', connected_name_valid = True,
                connected_name_str = Some ''Alice''\<rparr>"
             and pvt = "idle_port 0"
             and iflist = "[idle_port 0, (idle_port 1)\<lparr>channel_state := OFFHOOK\<rparr>]"
             and dev_ctx = two_ports and data = "''1''" and e = quiet_env
             and format = AST_FORMAT_ALAW]
  by (simp add: ast_lantiq_call_def ast_lantiq_requester_def lantiq_channel_def
        lantiq_conf_enc_def lantiq_ring_def LED_FAST_BLINK_def Let_def c_eq_def c_not_def
        atoi_eval port_eval)

text \<open>
  For the requester the rejection is not signalled as busy, it is not tied to the state
  of the port alone, and an accepted request does not make the port ring. With two ports,
  the second off-hook: a request for port 2 returns \<^verbatim>\<open>NULL\<close> with \<^verbatim>\<open>*cause\<close> unset and no call
  to the engine; a request for the idle port 1 returns \<^verbatim>\<open>NULL\<close> as well when
  \<^verbatim>\<open>ast_channel_alloc\<close> fails; and when the request for port 1 succeeds, port 1 is still
  \<open>ONHOOK\<close>.
\<close>

theorem requester_rejection_not_busy_signal:
  "channel_state ((idle_port 1)\<lparr>channel_state := OFFHOOK\<rparr>) \<noteq> ONHOOK \<and>
   ast_lantiq_requester two_ports quiet_env AST_FORMAT_ALAW ''2''
       [idle_port 0, (idle_port 1)\<lparr>channel_state := OFFHOOK\<rparr>] =
     (None, None, [idle_port 0, (idle_port 1)\<lparr>channel_state := OFFHOOK\<rparr>], []) \<and>
   channel_state (idle_port 0) = ONHOOK \<and>
   ast_lantiq_requester two_ports (quiet_env\<lparr>channel_alloc := None\<rparr>) AST_FORMAT_ALAW ''1''
       [idle_port 0, (idle_port 1)\<lparr>channel_state := OFFHOOK\<rparr>] =
     (None, None, [idle_port 0, (idle_port 1)\<lparr>channel_state := OFFHOOK\<rparr>],
      [ast_channel_alloc AST_STATE_DOWN None None 0]) \<and>
   fst (ast_lantiq_requester two_ports quiet_env AST_FORMAT_ALAW ''1''
          [idle_port 0, (idle_port 1)\<lparr>channel_state := OFFHOOK\<rparr>]) = Some 7 \<and>
   map channel_state
     (fst (snd (snd (ast_lantiq_requester two_ports quiet_env AST_FORMAT_ALAW ''1''
                       [idle_port 0, (idle_port 1)\<lparr>channel_state := OFFHOOK\<rparr>])))) =
     [ONHOOK, OFFHOOK]"
  by (simp add: ast_lantiq_requester_def lantiq_channel_def lantiq_conf_enc_def Let_def
        c_eq_def c_not_def atoi_eval port_eval)

text \<open>
  C9. With a port table of \<open>channels\<close> entries, \<^verbatim>\<open>ast_lantiq_devicestate\<close> answers something
  other than \<^verbatim>\<open>AST_DEVICE_INVALID\<close> exactly when the parsed number minus 1 is at least 1
  and at most \<open>channels\<close>. So the number 1, the first port, is always answered with
  \<^verbatim>\<open>AST_DEVICE_INVALID\<close>, and the number \<open>channels + 1\<close> is accepted and reads the entry
  at index \<open>channels\<close>, one past the last entry of the table.
\<close>

theorem devicestate_accepts_one_past_end:
  assumes table: "int (length iflist) = channels dev_ctx"
  shows "(ast_lantiq_devicestate dev_ctx iflist data \<noteq> Inr AST_DEVICE_INVALID) =
           (1 \<le> atoi data - 1 \<and> atoi data - 1 \<le> channels dev_ctx) \<and>
         (atoi data = 1 \<longrightarrow>
            ast_lantiq_devicestate dev_ctx iflist data = Inr AST_DEVICE_INVALID) \<and>
         (1 \<le> channels dev_ctx \<longrightarrow> atoi data = channels dev_ctx + 1 \<longrightarrow>
            ast_lantiq_devicestate dev_ctx iflist data =
              Inl (Out_Of_Bounds (channels dev_ctx)))"
  using table
  by (auto simp: ast_lantiq_devicestate_def Let_def split: channel_state.splits)

theorem devicestate_accepts_one_past_end_witness:
  "ast_lantiq_devicestate two_ports [idle_port 0, idle_port 1] ''1'' = Inr AST_DEVICE_INVALID \<and>
   ast_lantiq_devicestate two_ports [idle_port 0, idle_port 1] ''2'' = Inr AST_DEVICE_NOT_INUSE \<and>
   ast_lantiq_devicestate two_ports [idle_port 0, idle_port 1] ''3'' = Inl (Out_Of_Bounds 2) \<and>
   int (length [idle_port 0, idle_port 1]) = channels two_ports"
  using devicestate_accepts_one_past_end
          [where iflist = "[idle_port 0, idle_port 1]" and dev_ctx = two_ports and data = "''3''"]
  by (simp add: ast_lantiq_devicestate_def Let_def atoi_eval port_eval)

subsection \<open>Claims about the digit collector\<close>

lemma c_string_reset: "buf \<noteq> [] \<Longrightarrow> c_string (buf[0 := NUL]) = []"
  by (cases buf) (simp_all add: c_string_def)

lemma reset_ok: "dtmfbuf_ok M pvt \<Longrightarrow> dtmfbuf_ok M (lantiq_reset_dtmfbuf pvt)"
  by (simp add: dtmfbuf_ok_def lantiq_reset_dtmfbuf_def)

lemma reset_empty:
  "dtmfbuf_ok M pvt \<Longrightarrow>
     dtmfbuf_len (lantiq_reset_dtmfbuf pvt) = 0 \<and> c_string (dtmfbuf (lantiq_reset_dtmfbuf pvt)) = []"
  by (auto simp: dtmfbuf_ok_def lantiq_reset_dtmfbuf_def intro!: c_string_reset)

lemma dtmfbuf_ok_cong:
  "dtmfbuf pvt1 = dtmfbuf pvt \<Longrightarrow> dtmfbuf_len pvt1 = dtmfbuf_len pvt \<Longrightarrow>
     dtmfbuf_ok M pvt1 = dtmfbuf_ok M pvt"
  by (simp add: dtmfbuf_ok_def)

lemma end_dialing_result:
  "lantiq_end_dialing c pvt =
     (0, lantiq_reset_dtmfbuf (pvt\<lparr>dial_timer := 0\<rparr>),
      (if dial_timer pvt \<noteq> 0 then [ast_sched_thread_del (dial_timer pvt)] else []) @
      (case owner pvt of Some chan \<Rightarrow> [ast_hangup chan] | None \<Rightarrow> []))"
  by (cases pvt) (simp add: lantiq_end_dialing_def Let_def)

text \<open>
  What a dial attempt leaves in the digit buffer: nothing when the lookup fails or the
  call leg is created, the digits as they were when the call leg cannot be allocated.
\<close>

lemma dial_buffer_after:
  "lantiq_dial e pvt = (pvt', acts) \<Longrightarrow>
     (if exists_extension e (context_pvt pvt) (c_string (dtmfbuf pvt)) \<and> channel_alloc e = None
      then pvt' = pvt
      else dtmfbuf pvt' = (dtmfbuf pvt)[0 := NUL] \<and> dtmfbuf_len pvt' = 0)"
  by (auto simp: lantiq_dial_def lantiq_channel_def lantiq_reset_dtmfbuf_def Let_def
        split: if_splits option.splits)

lemma dial_ok: "dtmfbuf_ok M pvt \<Longrightarrow> dtmfbuf_ok M (fst (lantiq_dial e pvt))"
proof -
  assume ok: "dtmfbuf_ok M pvt"
  obtain pvt' acts where d: "lantiq_dial e pvt = (pvt', acts)" by (metis prod.exhaust)
  from dial_buffer_after [OF d] ok have "dtmfbuf_ok M pvt'"
    by (auto simp: dtmfbuf_ok_def split: if_splits)
  with d show ?thesis by simp
qed

lemma dialing_digit_ok:
  "dtmfbuf_ok M pvt \<Longrightarrow> dtmfbuf_ok M (fst (dialing_digit dev_ctx e M c digit pvt))"
proof -
  assume ok: "dtmfbuf_ok M pvt"
  show ?thesis
  proof (cases "digit = CHR ''#''")
    case True
    have "dtmfbuf_ok M (pvt\<lparr>dial_timer := 0\<rparr>)" using ok by (simp add: dtmfbuf_ok_def)
    with ok True dial_ok [of M pvt e] dial_ok [of M "pvt\<lparr>dial_timer := 0\<rparr>" e]
    show ?thesis
      by (auto simp: dialing_digit_def Let_def split: prod.splits)
  next
    case False
    with ok show ?thesis
      by (auto simp: dialing_digit_def Let_def dtmfbuf_ok_def end_dialing_result
            lantiq_reset_dtmfbuf_def)
  qed
qed

lemma digit_event_ok:
  "dtmfbuf_ok M pvt \<Longrightarrow> dtmfbuf_ok M (fst (lantiq_dev_event_digit dev_ctx e M c digit pvt))"
proof -
  assume ok: "dtmfbuf_ok M pvt"
  then have ok': "dtmfbuf_ok M (pvt\<lparr>channel_state := DIALING\<rparr>)" by (simp add: dtmfbuf_ok_def)
  from ok dialing_digit_ok [OF ok, of dev_ctx e c digit] dialing_digit_ok [OF ok', of dev_ctx e c digit]
  show ?thesis
    by (auto simp: lantiq_dev_event_digit_def split: channel_state.splits prod.splits)
qed

lemma digit_events_ok:
  "dtmfbuf_ok M pvt \<Longrightarrow> dtmfbuf_ok M (digit_events dev_ctx M c evs pvt)"
proof (induction evs arbitrary: pvt)
  case Nil
  then show ?case by simp
next
  case (Cons ev evs)
  obtain e digit where ev: "ev = (e, digit)" by (cases ev)
  from Cons.prems have "dtmfbuf_ok M (fst (lantiq_dev_event_digit dev_ctx e M c digit pvt))"
    by (rule digit_event_ok)
  then show ?case using ev by (simp add: Cons.IH)
qed

text \<open>
  The buffer is well formed when the driver creates the port, and the other events of a
  port keep it so.
\<close>

lemma create_pvt_ok: "1 \<le> M \<Longrightarrow> dtmfbuf_ok M (lantiq_create_pvt M i)"
  by (simp add: dtmfbuf_ok_def lantiq_create_pvt_def lantiq_init_pvt_def)

lemma hook_event_ok:
  "dtmfbuf_ok M pvt \<Longrightarrow> dtmfbuf_ok M (fst (snd (lantiq_dev_event_hook e c state pvt)))"
  by (auto simp: lantiq_dev_event_hook_def end_dialing_result lantiq_end_call_def
        lantiq_jb_get_stats_def accept_call_def dtmfbuf_ok_def lantiq_reset_dtmfbuf_def
        split: channel_state.splits option.splits ast_state.splits)

lemma dial_timeout_ok:
  "dtmfbuf_ok M pvt \<Longrightarrow> dtmfbuf_ok M (fst (snd (lantiq_event_dial_timeout e pvt)))"
proof -
  assume "dtmfbuf_ok M pvt"
  then have ok: "dtmfbuf_ok M (pvt\<lparr>dial_timer := 0\<rparr>)" by (simp add: dtmfbuf_ok_def)
  from ok dial_ok [OF ok, of e] show ?thesis
    by (auto simp: lantiq_event_dial_timeout_def Let_def split: prod.splits)
qed

lemma hangup_ok:
  "ast_lantiq_hangup e ast pvt = Inr (res, pvt', acts) \<Longrightarrow> dtmfbuf_ok M pvt \<Longrightarrow> dtmfbuf_ok M pvt'"
  by (auto simp: ast_lantiq_hangup_def lantiq_ring_def lantiq_jb_get_stats_def Let_def
        dtmfbuf_ok_def split: channel_state.splits option.splits)

lemma call_ok:
  "ast_lantiq_call ast pvt = Inr (res, pvt', acts) \<Longrightarrow> dtmfbuf_ok M pvt \<Longrightarrow> dtmfbuf_ok M pvt'"
  by (auto simp: ast_lantiq_call_def Let_def dtmfbuf_ok_def split: if_splits sum.splits)

lemma digit_overflow:
  assumes ok: "dtmfbuf_ok M pvt" and st: "channel_state pvt = OFFHOOK \<or> channel_state pvt = DIALING"
    and digit: "digit \<noteq> CHR ''#''" and full: "dtmfbuf_len pvt = M - 1"
    and run: "lantiq_dev_event_digit dev_ctx e M c digit pvt = (pvt', acts)"
  shows "channel_state pvt' = CALL_ENDED" "dtmfbuf_len pvt' = 0" "c_string (dtmfbuf pvt') = []"
    "dial_timer pvt' = 0"
    "IFX_TAPI_TONE_LOCAL_PLAY (port_id pvt) TAPI_TONE_LOCALE_BUSY_CODE \<in> set acts"
    "\<forall>t. ast_sched_thread_add t \<notin> set acts" "\<forall>t t'. AST_SCHED_REPLACE t t' \<notin> set acts"
proof -
  have ne: "dtmfbuf pvt \<noteq> []" using ok by (auto simp: dtmfbuf_ok_def)
  from st have r: "pvt' = (lantiq_reset_dtmfbuf (pvt\<lparr>dial_timer := 0\<rparr>))\<lparr>channel_state := CALL_ENDED\<rparr> \<or>
      pvt' = (lantiq_reset_dtmfbuf (pvt\<lparr>channel_state := DIALING, dial_timer := 0\<rparr>))
               \<lparr>channel_state := CALL_ENDED\<rparr>"
    using digit full run
    by (auto simp: lantiq_dev_event_digit_def dialing_digit_def end_dialing_result)
  from r show "channel_state pvt' = CALL_ENDED" "dtmfbuf_len pvt' = 0" "dial_timer pvt' = 0"
    by (auto simp: lantiq_reset_dtmfbuf_def)
  from r ne show "c_string (dtmfbuf pvt') = []"
    by (auto simp: lantiq_reset_dtmfbuf_def c_string_reset)
  from st digit full run
  show "IFX_TAPI_TONE_LOCAL_PLAY (port_id pvt) TAPI_TONE_LOCALE_BUSY_CODE \<in> set acts"
    by (auto simp: lantiq_dev_event_digit_def dialing_digit_def end_dialing_result
          lantiq_play_tone_def lantiq_reset_dtmfbuf_def)
  from st digit full run
  show "\<forall>t. ast_sched_thread_add t \<notin> set acts" "\<forall>t t'. AST_SCHED_REPLACE t t' \<notin> set acts"
    by (auto simp: lantiq_dev_event_digit_def dialing_digit_def end_dialing_result
          lantiq_play_tone_def split: option.splits)
qed

lemma digit_append:
  assumes ok: "dtmfbuf_ok M pvt" and st: "channel_state pvt = OFFHOOK \<or> channel_state pvt = DIALING"
    and digit: "digit \<noteq> CHR ''#''" and room: "dtmfbuf_len pvt < M - 1"
    and run: "lantiq_dev_event_digit dev_ctx e M c digit pvt = (pvt', acts)"
  shows "channel_state pvt' = DIALING" "dtmfbuf_len pvt' = dtmfbuf_len pvt + 1"
    "dtmfbuf pvt' ! nat (dtmfbuf_len pvt) = digit"
    "dtmfbuf pvt' ! nat (dtmfbuf_len pvt + 1) = NUL"
    "take (nat (dtmfbuf_len pvt)) (dtmfbuf pvt') = take (nat (dtmfbuf_len pvt)) (dtmfbuf pvt)"
proof -
  let ?n = "nat (dtmfbuf_len pvt)"
  have len: "Suc ?n < length (dtmfbuf pvt)" "nat (dtmfbuf_len pvt + 1) = Suc ?n"
    using ok room by (auto simp: dtmfbuf_ok_def)
  from st digit room run have b: "dtmfbuf pvt' = (dtmfbuf pvt)[?n := digit, Suc ?n := NUL]"
    and s: "channel_state pvt' = DIALING" and l: "dtmfbuf_len pvt' = dtmfbuf_len pvt + 1"
    using len(2)
    by (auto simp: lantiq_dev_event_digit_def dialing_digit_def Let_def split: if_splits)
  show "channel_state pvt' = DIALING" by (rule s)
  show "dtmfbuf_len pvt' = dtmfbuf_len pvt + 1" by (rule l)
  show "dtmfbuf pvt' ! ?n = digit" using b len by simp
  show "dtmfbuf pvt' ! nat (dtmfbuf_len pvt + 1) = NUL" using b len by simp
  show "take ?n (dtmfbuf pvt') = take ?n (dtmfbuf pvt)" using b by simp
qed

text \<open>
  C5. From a port whose digit buffer is well formed, every sequence of digit events
  leaves the buffer well formed: the recorded length stays below \<^verbatim>\<open>AST_MAX_EXTENSION\<close>,
  the size of the array (at most \<^verbatim>\<open>AST_MAX_EXTENSION - 1\<close> digits and the terminating NUL).
  When a digit other than \<^verbatim>\<open>#\<close> arrives while the port collects digits and the buffer
  holds \<^verbatim>\<open>AST_MAX_EXTENSION - 1\<close> digits, the digit is not stored: the buffer is reset to
  empty, the timer handle is cleared and no timer is armed, the busy tone is played and
  the port becomes \<open>CALL_ENDED\<close>. While there is room, the digit is stored behind the
  digits collected so far, which stay as they are.
\<close>

theorem dial_buffer_below_capacity:
  assumes ok: "dtmfbuf_ok M pvt"
  shows "dtmfbuf_ok M (digit_events dev_ctx M c evs pvt) \<and>
         dtmfbuf_len (digit_events dev_ctx M c evs pvt) < M \<and>
         (\<forall>e digit pvt' acts.
            (channel_state pvt = OFFHOOK \<or> channel_state pvt = DIALING) \<longrightarrow>
            digit \<noteq> CHR ''#'' \<longrightarrow> dtmfbuf_len pvt = M - 1 \<longrightarrow>
            lantiq_dev_event_digit dev_ctx e M c digit pvt = (pvt', acts) \<longrightarrow>
              channel_state pvt' = CALL_ENDED \<and> dtmfbuf_len pvt' = 0 \<and>
              c_string (dtmfbuf pvt') = [] \<and> dial_timer pvt' = 0 \<and>
              IFX_TAPI_TONE_LOCAL_PLAY (port_id pvt) TAPI_TONE_LOCALE_BUSY_CODE \<in> set acts \<and>
              (\<forall>t. ast_sched_thread_add t \<notin> set acts) \<and>
              (\<forall>t t'. AST_SCHED_REPLACE t t' \<notin> set acts)) \<and>
         (\<forall>e digit pvt' acts.
            (channel_state pvt = OFFHOOK \<or> channel_state pvt = DIALING) \<longrightarrow>
            digit \<noteq> CHR ''#'' \<longrightarrow> dtmfbuf_len pvt < M - 1 \<longrightarrow>
            lantiq_dev_event_digit dev_ctx e M c digit pvt = (pvt', acts) \<longrightarrow>
              channel_state pvt' = DIALING \<and> dtmfbuf_len pvt' = dtmfbuf_len pvt + 1 \<and>
              dtmfbuf pvt' ! nat (dtmfbuf_len pvt) = digit \<and>
              dtmfbuf pvt' ! nat (dtmfbuf_len pvt + 1) = NUL \<and>
              take (nat (dtmfbuf_len pvt)) (dtmfbuf pvt') =
                take (nat (dtmfbuf_len pvt)) (dtmfbuf pvt))"
proof (intro conjI allI impI)
  show inv: "dtmfbuf_ok M (digit_events dev_ctx M c evs pvt)"
    using ok by (rule digit_events_ok)
  then show "dtmfbuf_len (digit_events dev_ctx M c evs pvt) < M"
    by (simp add: dtmfbuf_ok_def)
next
  fix e digit pvt' acts
  assume a: "channel_state pvt = OFFHOOK \<or> channel_state pvt = DIALING" "digit \<noteq> CHR ''#''"
    "dtmfbuf_len pvt = M - 1" "lantiq_dev_event_digit dev_ctx e M c digit pvt = (pvt', acts)"
  note o = digit_overflow [OF ok a]
  show "channel_state pvt' = CALL_ENDED" by (rule o(1))
  show "dtmfbuf_len pvt' = 0" by (rule o(2))
  show "c_string (dtmfbuf pvt') = []" by (rule o(3))
  show "dial_timer pvt' = 0" by (rule o(4))
  show "IFX_TAPI_TONE_LOCAL_PLAY (port_id pvt) TAPI_TONE_LOCALE_BUSY_CODE \<in> set acts"
    by (rule o(5))
  show "\<And>t. ast_sched_thread_add t \<notin> set acts" using o(6) by simp
  show "\<And>t t'. AST_SCHED_REPLACE t t' \<notin> set acts" using o(7) by simp
next
  fix e digit pvt' acts
  assume a: "channel_state pvt = OFFHOOK \<or> channel_state pvt = DIALING" "digit \<noteq> CHR ''#''"
    "dtmfbuf_len pvt < M - 1" "lantiq_dev_event_digit dev_ctx e M c digit pvt = (pvt', acts)"
  note p = digit_append [OF ok a]
  show "channel_state pvt' = DIALING" by (rule p(1))
  show "dtmfbuf_len pvt' = dtmfbuf_len pvt + 1" by (rule p(2))
  show "dtmfbuf pvt' ! nat (dtmfbuf_len pvt) = digit" by (rule p(3))
  show "dtmfbuf pvt' ! nat (dtmfbuf_len pvt + 1) = NUL" by (rule p(4))
  show "take (nat (dtmfbuf_len pvt)) (dtmfbuf pvt') = take (nat (dtmfbuf_len pvt)) (dtmfbuf pvt)"
    by (rule p(5))
qed

lemmas digit_eval =
  dialing_port_def digit_events.simps lantiq_dev_event_digit_def dialing_digit_def
  lantiq_end_dialing_def lantiq_dial_def lantiq_channel_def lantiq_reset_dtmfbuf_def
  lantiq_play_tone_def c_string_def Let_def TAPI_TONE_LOCALE_BUSY_CODE_def
  TAPI_TONE_LOCALE_NONE_def LED_SLOW_BLINK_def

lemma dialing_port_eq:
  "dialing_port =
     (lantiq_create_pvt 4 0)\<lparr>channel_state := DIALING, dial_timer := 3,
        dtmfbuf := [CHR ''1'', CHR ''2'', CHR 0x00, CHR 0x00], dtmfbuf_len := 2\<rparr>"
  by (simp add: digit_eval port_eval numeral_eq_Suc)

theorem dial_buffer_below_capacity_witness:
  "dtmfbuf_ok 4 dialing_port \<and>
   dtmfbuf_len (digit_events two_ports 4 0
     [(quiet_env, CHR ''3''), (quiet_env, CHR ''4''), (quiet_env, CHR ''5'')] dialing_port) < 4 \<and>
   lantiq_dev_event_digit two_ports quiet_env 4 0 (CHR ''3'') dialing_port =
     (dialing_port\<lparr>dtmfbuf := [CHR ''1'', CHR ''2'', CHR ''3'', CHR 0x00], dtmfbuf_len := 3\<rparr>,
      [AST_SCHED_REPLACE 3 2000]) \<and>
   lantiq_dev_event_digit two_ports quiet_env 4 0 (CHR ''4'')
       (dialing_port\<lparr>dtmfbuf := [CHR ''1'', CHR ''2'', CHR ''3'', CHR 0x00], dtmfbuf_len := 3\<rparr>) =
     (dialing_port\<lparr>channel_state := CALL_ENDED, dial_timer := 0,
                    dtmfbuf := [CHR 0x00, CHR ''2'', CHR ''3'', CHR 0x00], dtmfbuf_len := 0\<rparr>,
      [ast_sched_thread_del 3, IFX_TAPI_TONE_LOCAL_PLAY 0 0, IFX_TAPI_TONE_LOCAL_PLAY 0 27])"
proof -
  have ok: "dtmfbuf_ok 4 dialing_port"
    by (simp add: dialing_port_eq dtmfbuf_ok_def port_eval)
  from dial_buffer_below_capacity [OF ok, of two_ports 0
    "[(quiet_env, CHR ''3''), (quiet_env, CHR ''4''), (quiet_env, CHR ''5'')]"]
  have "dtmfbuf_len (digit_events two_ports 4 0
     [(quiet_env, CHR ''3''), (quiet_env, CHR ''4''), (quiet_env, CHR ''5'')] dialing_port) < 4"
    by blast
  with ok show ?thesis
    by (simp add: dialing_port_eq digit_eval port_eval)
qed

text \<open>
  C6. The claim fails on the code when the dialled extension exists and
  \<^verbatim>\<open>ast_channel_alloc\<close> returns \<^verbatim>\<open>NULL\<close>: \<^verbatim>\<open>lantiq_dial\<close> jumps to \<^verbatim>\<open>bailout\<close>, past
  \<^verbatim>\<open>lantiq_reset_dtmfbuf\<close>. On the port that has collected the digits 1 and 2 the dial
  attempt, and the terminator \<^verbatim>\<open>#\<close> that makes it, leave the digits 12 in the buffer and
  the port in \<open>DIALING\<close>. (In the two other cases the buffer is emptied: lemma
  \<open>dial_buffer_after\<close>.)
\<close>

theorem dial_alloc_failure_keeps_digits:
  "lantiq_dial (quiet_env\<lparr>channel_alloc := None\<rparr>) dialing_port =
     (dialing_port, [ast_channel_alloc AST_STATE_UP (Some ''12'') (Some ''default'') 0]) \<and>
   lantiq_dev_event_digit two_ports (quiet_env\<lparr>channel_alloc := None\<rparr>) 4 0 (CHR ''#'')
       dialing_port =
     (dialing_port\<lparr>dial_timer := 0\<rparr>,
      [ast_sched_thread_del 3,
       ast_channel_alloc AST_STATE_UP (Some ''12'') (Some ''default'') 0]) \<and>
   channel_state dialing_port = DIALING \<and>
   dtmfbuf_len dialing_port = 2 \<and> c_string (dtmfbuf dialing_port) = ''12''"
  by (simp add: dialing_port_eq digit_eval port_eval)

lemma dial_timer_clear: "dial_timer pvt = 0 \<Longrightarrow> pvt\<lparr>dial_timer := 0\<rparr> = pvt"
  by (cases pvt) simp

text \<open>
  C7. When the timer fires on a port in \<open>DIALING\<close>, the port afterwards and the calls made
  are those of a dial attempt (\<^verbatim>\<open>lantiq_dial\<close>) on the port with its timer handle cleared,
  which is also what the digit \<^verbatim>\<open>#\<close> gives there, after it has cancelled a pending timer.
  In every state but \<open>ONHOOK\<close> the firing makes the dial attempt (the test
  \<^verbatim>\<open>! pvt->channel_state == ONHOOK\<close> of the source is true exactly then). On a port that is
  \<open>ONHOOK\<close> the firing only clears the timer handle: no dial attempt, no call at all.
\<close>

theorem dial_timeout_like_terminator:
  "(channel_state pvt = DIALING \<longrightarrow>
      (case lantiq_event_dial_timeout e pvt of
         (ret, pvt_t, acts_t) \<Rightarrow>
           ret = 0 \<and> (pvt_t, acts_t) = lantiq_dial e (pvt\<lparr>dial_timer := 0\<rparr>) \<and>
           lantiq_dev_event_digit dev_ctx e M c (CHR ''#'') pvt =
             (pvt_t,
              (if dial_timer pvt \<noteq> 0 then [ast_sched_thread_del (dial_timer pvt)] else []) @
                acts_t))) \<and>
   (channel_state pvt \<noteq> ONHOOK \<longrightarrow>
      lantiq_event_dial_timeout e pvt =
        (case lantiq_dial e (pvt\<lparr>dial_timer := 0\<rparr>) of (pvt2, a) \<Rightarrow> (0, pvt2, a))) \<and>
   (channel_state pvt = ONHOOK \<longrightarrow>
      lantiq_event_dial_timeout e pvt = (0, pvt\<lparr>dial_timer := 0\<rparr>, []))"
proof (intro conjI impI)
  assume st: "channel_state pvt = DIALING"
  obtain pvt2 a where d: "lantiq_dial e (pvt\<lparr>dial_timer := 0\<rparr>) = (pvt2, a)"
    by (metis prod.exhaust)
  have t: "lantiq_event_dial_timeout e pvt = (0, pvt2, a)"
    using st d by (simp add: lantiq_event_dial_timeout_def Let_def in_use_test)
  have h: "lantiq_dev_event_digit dev_ctx e M c (CHR ''#'') pvt =
      (pvt2, (if dial_timer pvt \<noteq> 0 then [ast_sched_thread_del (dial_timer pvt)] else []) @ a)"
  proof (cases "dial_timer pvt = 0")
    case True
    with d have "lantiq_dial e pvt = (pvt2, a)" by (simp add: dial_timer_clear)
    with st True show ?thesis
      by (simp add: lantiq_dev_event_digit_def dialing_digit_def Let_def)
  next
    case False
    with st d show ?thesis
      by (simp add: lantiq_dev_event_digit_def dialing_digit_def Let_def)
  qed
  show "case lantiq_event_dial_timeout e pvt of
         (ret, pvt_t, acts_t) \<Rightarrow>
           ret = 0 \<and> (pvt_t, acts_t) = lantiq_dial e (pvt\<lparr>dial_timer := 0\<rparr>) \<and>
           lantiq_dev_event_digit dev_ctx e M c (CHR ''#'') pvt =
             (pvt_t,
              (if dial_timer pvt \<noteq> 0 then [ast_sched_thread_del (dial_timer pvt)] else []) @
                acts_t)"
    using t d h by simp
next
  assume "channel_state pvt \<noteq> ONHOOK"
  then show "lantiq_event_dial_timeout e pvt =
        (case lantiq_dial e (pvt\<lparr>dial_timer := 0\<rparr>) of (pvt2, a) \<Rightarrow> (0, pvt2, a))"
    by (simp add: lantiq_event_dial_timeout_def Let_def in_use_test)
next
  assume "channel_state pvt = ONHOOK"
  then show "lantiq_event_dial_timeout e pvt = (0, pvt\<lparr>dial_timer := 0\<rparr>, [])"
    by (simp add: lantiq_event_dial_timeout_def Let_def in_use_test)
qed

theorem dial_timeout_like_terminator_witness:
  "lantiq_event_dial_timeout quiet_env dialing_port =
     (0,
      dialing_port\<lparr>owner := Some 7, channel_state := INCALL, dial_timer := 0,
                    dtmfbuf := [CHR 0x00, CHR ''2'', CHR 0x00, CHR 0x00], dtmfbuf_len := 0,
                    call_setup_start := 5000, call_start := 86400\<rparr>,
      [ast_channel_alloc AST_STATE_UP (Some ''12'') (Some ''default'') 0,
       ast_setstate 7 AST_STATE_RING, ast_pbx_start 7]) \<and>
   lantiq_dev_event_digit two_ports quiet_env 4 0 (CHR ''#'') dialing_port =
     (dialing_port\<lparr>owner := Some 7, channel_state := INCALL, dial_timer := 0,
                    dtmfbuf := [CHR 0x00, CHR ''2'', CHR 0x00, CHR 0x00], dtmfbuf_len := 0,
                    call_setup_start := 5000, call_start := 86400\<rparr>,
      [ast_sched_thread_del 3,
       ast_channel_alloc AST_STATE_UP (Some ''12'') (Some ''default'') 0,
       ast_setstate 7 AST_STATE_RING, ast_pbx_start 7]) \<and>
   lantiq_event_dial_timeout quiet_env ((idle_port 0)\<lparr>dial_timer := 3\<rparr>) = (0, idle_port 0, [])"
  using dial_timeout_like_terminator
          [where pvt = dialing_port and e = quiet_env and dev_ctx = two_ports and M = 4 and c = 0]
  by (simp add: dialing_port_eq digit_eval port_eval lantiq_event_dial_timeout_def
        c_eq_def c_not_def)

subsection \<open>Claims about hook events\<close>

lemma standby_actions:
  "count_list (lantiq_standby e c) (ast_queue_hangup ch) = 0"
  "count_list (lantiq_standby e c) (IFX_TAPI_JB_STATISTICS_GET c') = 0"
  "ast_queue_hangup ch \<notin> set (lantiq_standby e c)"
  by (simp_all add: lantiq_standby_def lantiq_play_tone_def)

text \<open>
  C8. On a port in \<open>INCALL\<close> that has an owning call leg, an on-hook event first reads the
  jitter-buffer statistics (once; when the ioctl succeeds its values are stored in the
  port), then queues one hangup to the owning call leg and to no other, and the port
  becomes \<open>ONHOOK\<close>; what follows is the standby sequence and the LED.
\<close>

theorem onhook_in_call:
  assumes st: "channel_state pvt = INCALL" and own: "owner pvt = Some chan" and on: "state \<noteq> 0"
  shows "case lantiq_dev_event_hook e c state pvt of
           (ret, pvt', acts) \<Rightarrow>
             ret = 0 \<and> channel_state pvt' = ONHOOK \<and>
             acts = IFX_TAPI_JB_STATISTICS_GET c # ast_queue_hangup chan #
                      lantiq_standby e c @ [led_off c] \<and>
             count_list acts (IFX_TAPI_JB_STATISTICS_GET c) = 1 \<and>
             count_list acts (ast_queue_hangup chan) = 1 \<and>
             (\<forall>ch. ast_queue_hangup ch \<in> set acts \<longrightarrow> ch = chan) \<and>
             (\<forall>ch. ast_hangup ch \<notin> set acts) \<and>
             (\<forall>param. jb_stats_get e = Some param \<longrightarrow>
                jb_size pvt' = ucast (nBufSize param) \<and>
                jb_underflow pvt' = nIsUnderflow param \<and>
                jb_overflow pvt' = nDsOverflow param \<and>
                jb_invalid pvt' = ucast (nInvalid param) \<and>
                jb_delay pvt' = ucast (nPODelay param))"
  using st own on
  by (auto simp: lantiq_dev_event_hook_def lantiq_end_call_def lantiq_jb_get_stats_def
        standby_actions lantiq_standby_def lantiq_play_tone_def split: option.splits)

theorem onhook_in_call_witness:
  "lantiq_dev_event_hook quiet_env 0 1 (port_in_call AST_FORMAT_ALAW) =
     (0,
      (port_in_call AST_FORMAT_ALAW)\<lparr>channel_state := ONHOOK, jb_size := 720, jb_underflow := 1,
         jb_overflow := 2, jb_delay := 40, jb_invalid := 3\<rparr>,
      [IFX_TAPI_JB_STATISTICS_GET 0, ast_queue_hangup 7,
       IFX_TAPI_LINE_FEED_SET 0 IFX_TAPI_LINE_FEED_STANDBY, IFX_TAPI_ENC_STOP 0,
       IFX_TAPI_DEC_STOP 0, IFX_TAPI_TONE_LOCAL_PLAY 0 0, led_off 0]) \<and>
   channel_state (port_in_call AST_FORMAT_ALAW) = INCALL \<and>
   owner (port_in_call AST_FORMAT_ALAW) = Some 7"
proof -
  have p: "channel_state (port_in_call AST_FORMAT_ALAW) = INCALL"
    "owner (port_in_call AST_FORMAT_ALAW) = Some 7"
    by (simp_all add: port_in_call_def lantiq_conf_enc_def)
  from onhook_in_call [OF p, where state = 1 and e = quiet_env and c = 0] p show ?thesis
    by (simp add: lantiq_dev_event_hook_def lantiq_end_call_def lantiq_jb_get_stats_def
          lantiq_standby_def lantiq_play_tone_def TAPI_TONE_LOCALE_NONE_def quiet_env_def
          port_in_call_def lantiq_conf_enc_def)
qed

end
